theory Spec2Isabelle
  imports Main "HOL-Library.Word" "HOL-Library.Char_ord" "HOL-Library.List_Lexorder"
begin

text \<open>
  A shallow embedding of the typed intermediate representation of the descripten compiler
  (src/ir/ir.hh) and of the runtime's error classes (src/runtime/error.hh): the type
  system with its equality, order and printing, the values and instructions, the blocks
  and functions with the builder that fills them, and \<open>es_throw\<close>. Definitions
  come first, the proofs after them.
\<close>

section \<open>The IR type system (src/ir/ir.hh, class Type and its subclasses)\<close>

text \<open>
  Machine integers keep their width. \<open>String\<close> is the UTF-16 string class of
  common/string.hh; the IR only stores it and prints it through \<open>utf8()\<close>, so it is
  represented by its UTF-8 text. \<open>std::string\<close> is a byte string, compared
  lexicographically by unsigned byte value, which is the order of \<open>char list\<close> here.
\<close>

type_synonym size_t = "64 word"
type_synonym uint64_t = "64 word"
type_synonym uint16_t = "16 word"
type_synonym c_int = "32 word"
type_synonym double = "64 word"
type_synonym String = string
type_synonym addr = nat

definition utf8 :: "String \<Rightarrow> string" where
  "utf8 s = s"

text \<open>The enum \<open>Type::Identifier\<close>, in the order of its declaration.\<close>

datatype Identifier =
    ID_VOID | ID_BOOLEAN | ID_DOUBLE | ID_STRING
  | ID_VALUE | ID_REFERENCE
  | ID_ARRAY | ID_POINTER | ID_OPAQUE

text \<open>The integer value of each enumerator, which \<open>id_ < rhs->id_\<close> compares.\<close>

fun ordinal :: "Identifier \<Rightarrow> nat" where
  "ordinal ID_VOID = 0"
| "ordinal ID_BOOLEAN = 1"
| "ordinal ID_DOUBLE = 2"
| "ordinal ID_STRING = 3"
| "ordinal ID_VALUE = 4"
| "ordinal ID_REFERENCE = 5"
| "ordinal ID_ARRAY = 6"
| "ordinal ID_POINTER = 7"
| "ordinal ID_OPAQUE = 8"

text \<open>
  A type object is an object of the base class \<open>Type\<close>, whose public constructor
  \<open>Type(Identifier id)\<close> accepts every identifier, or of one of the four subclasses,
  whose constructors fix the identifier and add the parameters.
\<close>

datatype Type =
    Type Identifier
  | ReferenceType String
  | ArrayType Type size_t
  | PointerType Type
  | OpaqueType string

text \<open>
  Failures of the code are values: a failed \<open>assert\<close>, a \<open>static_cast\<close> to a class
  the object does not have followed by the read of a member the object does not have
  (undefined behaviour in the source), a violated contract of the builder, a dangling or
  null pointer, and an empty context stack.
\<close>

datatype error = AssertionFailed | BadCast | ProgrammingError | InvalidPointer | NoContext

fun "identifier" :: "Type \<Rightarrow> Identifier" where
  "identifier (Type i) = i"
| "identifier (ReferenceType n) = ID_REFERENCE"
| "identifier (ArrayType t l) = ID_ARRAY"
| "identifier (PointerType t) = ID_POINTER"
| "identifier (OpaqueType n) = ID_OPAQUE"

definition is_array :: "Type \<Rightarrow> bool" where
  "is_array t = (identifier t = ID_ARRAY)"

definition is_pointer :: "Type \<Rightarrow> bool" where
  "is_pointer t = (identifier t = ID_POINTER)"

text \<open>
  \<open>equal_to\<close> is virtual: the class of the receiver selects the body. \<open>Type\<close> compares
  the identifiers; \<open>ReferenceType\<close> overrides nothing and inherits that body; the three
  derived types return false on different identifiers and otherwise cast the right-hand
  side to their own class.
\<close>

fun equal_to :: "Type \<Rightarrow> Type \<Rightarrow> error + bool" where
  "equal_to (Type i) rhs = Inr (i = identifier rhs)"
| "equal_to (ReferenceType n) rhs = Inr (ID_REFERENCE = identifier rhs)"
| "equal_to (ArrayType t l) rhs =
     (if ID_ARRAY \<noteq> identifier rhs then Inr False
      else case rhs of
             ArrayType t' l' \<Rightarrow>
               (case equal_to t t' of Inl e \<Rightarrow> Inl e | Inr b \<Rightarrow> Inr (b \<and> l = l'))
           | _ \<Rightarrow> Inl BadCast)"
| "equal_to (PointerType t) rhs =
     (if ID_POINTER \<noteq> identifier rhs then Inr False
      else case rhs of
             PointerType t' \<Rightarrow> equal_to t t'
           | _ \<Rightarrow> Inl BadCast)"
| "equal_to (OpaqueType n) rhs =
     (if ID_OPAQUE \<noteq> identifier rhs then Inr False
      else case rhs of
             OpaqueType n' \<Rightarrow> Inr (n = n')
           | _ \<Rightarrow> Inl BadCast)"

text \<open>\<open>less_than\<close>, dispatched the same way.\<close>

fun less_than :: "Type \<Rightarrow> Type \<Rightarrow> error + bool" where
  "less_than (Type i) rhs = Inr (ordinal i < ordinal (identifier rhs))"
| "less_than (ReferenceType n) rhs =
     Inr (ordinal ID_REFERENCE < ordinal (identifier rhs))"
| "less_than (ArrayType t l) rhs =
     (if ID_ARRAY \<noteq> identifier rhs
      then Inr (ordinal ID_ARRAY < ordinal (identifier rhs))
      else case rhs of
             ArrayType t' l' \<Rightarrow>
               (case equal_to t t' of
                  Inl e \<Rightarrow> Inl e
                | Inr b \<Rightarrow> if \<not> b then less_than t t' else Inr (l < l'))
           | _ \<Rightarrow> Inl BadCast)"
| "less_than (PointerType t) rhs =
     (if ID_POINTER \<noteq> identifier rhs
      then Inr (ordinal ID_POINTER < ordinal (identifier rhs))
      else case rhs of
             PointerType t' \<Rightarrow> less_than t t'
           | _ \<Rightarrow> Inl BadCast)"
| "less_than (OpaqueType n) rhs =
     (if ID_OPAQUE \<noteq> identifier rhs
      then Inr (ordinal ID_OPAQUE < ordinal (identifier rhs))
      else case rhs of
             OpaqueType n' \<Rightarrow> Inr (n < n')
           | _ \<Rightarrow> Inl BadCast)"

text \<open>Decimal output of an unsigned integer, as \<open>operator<<\<close> of a stream prints it.\<close>

definition digit :: "nat \<Rightarrow> char" where
  "digit d = ''0123456789'' ! d"

function decimal :: "nat \<Rightarrow> string" where
  "decimal n = (if n < 10 then [digit n] else decimal (n div 10) @ [digit (n mod 10)])"
  by pat_completeness auto
termination
  by (relation "measure id") auto

text \<open>
  \<open>as_string\<close> (debug builds). The body of \<open>Type\<close> prints the six primitive and
  complex identifiers and asserts on the three derived ones; every subclass overrides it.
\<close>

fun as_string :: "Type \<Rightarrow> error + string" where
  "as_string (Type ID_VOID) = Inr ''void''"
| "as_string (Type ID_BOOLEAN) = Inr ''boolean''"
| "as_string (Type ID_DOUBLE) = Inr ''double''"
| "as_string (Type ID_STRING) = Inr ''string''"
| "as_string (Type ID_VALUE) = Inr ''value''"
| "as_string (Type ID_REFERENCE) = Inr ''reference''"
| "as_string (Type ID_ARRAY) = Inl AssertionFailed"
| "as_string (Type ID_POINTER) = Inl AssertionFailed"
| "as_string (Type ID_OPAQUE) = Inl AssertionFailed"
| "as_string (ReferenceType n) = Inr (''reference('' @ utf8 n @ '')'')"
| "as_string (ArrayType t l) =
     (case as_string t of
        Inl e \<Rightarrow> Inl e
      | Inr s \<Rightarrow> Inr (s @ ''['' @ decimal (unat l) @ '']''))"
| "as_string (PointerType t) =
     (case as_string t of Inl e \<Rightarrow> Inl e | Inr s \<Rightarrow> Inr (s @ ''*''))"
| "as_string (OpaqueType n) = Inr (''opaque '' @ n)"

text \<open>
  The class discipline of the type objects: an array, pointer or opaque identifier is
  carried by an object of the subclass of that name, at every level of nesting. The
  casts of the comparison functions and the assertions of \<open>as_string\<close> rely on it.
\<close>

fun well_formed :: "Type \<Rightarrow> bool" where
  "well_formed (Type i) = (i \<noteq> ID_ARRAY \<and> i \<noteq> ID_POINTER \<and> i \<noteq> ID_OPAQUE)"
| "well_formed (ReferenceType n) = True"
| "well_formed (ArrayType t l) = well_formed t"
| "well_formed (PointerType t) = well_formed t"
| "well_formed (OpaqueType n) = True"

text \<open>
  Equality as the specification words it: the same identifier and the same parameters,
  which are the element type and the length of an array type, the pointee of a pointer
  type, the name of an opaque type and the name of the referred entity of a reference
  type.
\<close>

fun equal_as_specified :: "Type \<Rightarrow> Type \<Rightarrow> bool" where
  "equal_as_specified (ArrayType t l) (ArrayType t' l') =
     (equal_as_specified t t' \<and> l = l')"
| "equal_as_specified (PointerType t) (PointerType t') = equal_as_specified t t'"
| "equal_as_specified (OpaqueType n) (OpaqueType n') = (n = n')"
| "equal_as_specified (ReferenceType n) (ReferenceType n') = (n = n')"
| "equal_as_specified x y = (identifier x = identifier y)"

text \<open>The same with the name of a reference type left out of the comparison.\<close>

fun equal_up_to_reference_name :: "Type \<Rightarrow> Type \<Rightarrow> bool" where
  "equal_up_to_reference_name (ArrayType t l) (ArrayType t' l') =
     (equal_up_to_reference_name t t' \<and> l = l')"
| "equal_up_to_reference_name (PointerType t) (PointerType t') =
     equal_up_to_reference_name t t'"
| "equal_up_to_reference_name (OpaqueType n) (OpaqueType n') = (n = n')"
| "equal_up_to_reference_name x y = (identifier x = identifier y)"

text \<open>
  The order as the specification words it: first by the ordinal of the identifier, then
  by structure (element type before length, pointee, name).
\<close>

fun ordered_before :: "Type \<Rightarrow> Type \<Rightarrow> bool" where
  "ordered_before (ArrayType t l) (ArrayType t' l') =
     (if equal_up_to_reference_name t t' then l < l' else ordered_before t t')"
| "ordered_before (PointerType t) (PointerType t') = ordered_before t t'"
| "ordered_before (OpaqueType n) (OpaqueType n') = (n < n')"
| "ordered_before x y = (ordinal (identifier x) < ordinal (identifier y))"

text \<open>Exactly one of three propositions holds.\<close>

definition exactly_one :: "bool \<Rightarrow> bool \<Rightarrow> bool \<Rightarrow> bool" where
  "exactly_one a b c = ((a \<and> \<not> b \<and> \<not> c) \<or> (\<not> a \<and> b \<and> \<not> c) \<or> (\<not> a \<and> \<not> b \<and> c))"

text \<open>
  A type with the name of every reference type in it forgotten: a reference type becomes
  the base-class object with the identifier of references.
\<close>

fun forget_reference_names :: "Type \<Rightarrow> Type" where
  "forget_reference_names (Type i) = Type i"
| "forget_reference_names (ReferenceType n) = Type ID_REFERENCE"
| "forget_reference_names (ArrayType t l) = ArrayType (forget_reference_names t) l"
| "forget_reference_names (PointerType t) = PointerType (forget_reference_names t)"
| "forget_reference_names (OpaqueType n) = OpaqueType n"

text \<open>The three-way comparison of two types, on the specification's side.\<close>

definition tri :: "Type \<Rightarrow> Type \<Rightarrow> bool" where
  "tri x y = exactly_one (ordered_before x y) (ordered_before y x)
               (equal_up_to_reference_name x y)"

section \<open>Values and constants (src/ir/ir.hh, class Value and the Constant classes)\<close>

text \<open>
  Modelled from the spec: the static accessors \<open>Type::_void()\<close>, \<open>Type::boolean()\<close>,
  \<open>Type::_double()\<close>, \<open>Type::string()\<close>, \<open>Type::value()\<close> and \<open>Type::reference()\<close>
  are declared in ir.hh and defined in ir.cc, which is not among the sources. The
  specification makes them interned singletons of the primitive types and of the value and
  reference types, that is base-class objects with the identifier of their name.
\<close>

definition Type_void :: Type where "Type_void = Type ID_VOID"
definition Type_boolean :: Type where "Type_boolean = Type ID_BOOLEAN"
definition Type_double :: Type where "Type_double = Type ID_DOUBLE"
definition Type_string :: Type where "Type_string = Type ID_STRING"
definition Type_value :: Type where "Type_value = Type ID_VALUE"
definition Type_reference :: Type where "Type_reference = Type ID_REFERENCE"

datatype ValueConstant_Value =
  VALUE_NOTHING | VALUE_UNDEFINED | VALUE_NULL | VALUE_TRUE | VALUE_FALSE

text \<open>
  The object behind a \<open>Value *\<close> operand. A constant is immutable and holds its operand,
  so constants form a tree. An instruction lives in the store of the builder below; its
  \<open>type()\<close> is defined in ir.cc, so an operand that is an instruction is its address
  together with the type it reports.
\<close>

datatype Value =
    InstructionValue addr Type
  | ArrayElementConstant Value size_t
  | CalleeConstant
  | ReturnConstant
  | NullConstant Type
  | BooleanConstant bool
  | DoubleConstant double
  | StringifiedDoubleConstant String
  | StringConstant String
  | ValueConstant ValueConstant_Value

text \<open>
  \<open>static_cast<const ArrayType *>(t)\<close> followed by the non-virtual \<open>->type()\<close>,
  which loads the member \<open>type_\<close> of \<open>ArrayType\<close>. \<open>ArrayType\<close> and
  \<open>PointerType\<close> both derive singly from \<open>Type\<close> and both declare
  \<open>const Type *type_\<close> as their first member, so the cast adjusts nothing and on a
  \<open>PointerType\<close> object the load yields the pointee. An object of the base class has
  no member there (the load is outside the object), and a reference or opaque type keeps
  its name there: on these the load yields no type.
\<close>

fun ArrayType_type :: "Type \<Rightarrow> error + Type" where
  "ArrayType_type (ArrayType t l) = Inr t"
| "ArrayType_type (PointerType t) = Inr t"
| "ArrayType_type t = Inl BadCast"

text \<open>The virtual \<open>Value::type()\<close> and its overrides in the constant classes.\<close>

fun type :: "Value \<Rightarrow> error + Type" where
  "type (InstructionValue a ty) = Inr ty"
| "type (ArrayElementConstant array index) =
     (case type array of Inl e \<Rightarrow> Inl e | Inr ty \<Rightarrow> ArrayType_type ty)"
| "type CalleeConstant = Inr Type_value"
| "type ReturnConstant = Inr Type_value"
| "type (NullConstant ty) = Inr ty"
| "type (BooleanConstant b) = Inr Type_boolean"
| "type (DoubleConstant d) = Inr Type_double"
| "type (StringifiedDoubleConstant s) = Inr Type_double"
| "type (StringConstant s) = Inr Type_string"
| "type (ValueConstant v) = Inr Type_value"

text \<open>
  The constructor \<open>ArrayElementConstant(Value *array, size_t index)\<close> with its
  assertion that the operand has an array type or a pointer type.
\<close>

definition new_ArrayElementConstant :: "Value \<Rightarrow> size_t \<Rightarrow> error + Value" where
  "new_ArrayElementConstant array index =
     (case type array of
        Inl e \<Rightarrow> Inl e
      | Inr ty \<Rightarrow>
          if is_array ty \<or> is_pointer ty then Inr (ArrayElementConstant array index)
          else Inl AssertionFailed)"

section \<open>Runtime errors (src/runtime/error.hh)\<close>

type_synonym EsString = string

text \<open>
  The macro \<open>_ESTR\<close> (common headers, not among the sources) makes a runtime string of a
  literal.
\<close>

definition ESTR :: "string \<Rightarrow> EsString" where
  "ESTR s = s"

text \<open>The error classes that error.hh declares: \<open>EsError\<close> and the six native errors.\<close>

datatype error_class =
    EsError | EsEvalError | EsRangeError | EsReferenceError
  | EsSyntaxError | EsTypeError | EsUriError

definition error_classes :: "error_class list" where
  "error_classes =
     [EsError, EsEvalError, EsRangeError, EsReferenceError,
      EsSyntaxError, EsTypeError, EsUriError]"

text \<open>
  An error object: the class it was created as, and the two private fields \<open>name_\<close>
  and \<open>message_\<close> of \<open>EsError\<close>, which the getters \<open>name()\<close> and \<open>message()\<close>
  return; the record selectors are these getters.
\<close>

record error_object =
  dynamic_class :: error_class
  name :: EsString
  message :: EsString

text \<open>
  Modelled from the spec: the protected constructors \<open>EsError(name, message)\<close> and
  \<open>EsNativeError<T>(name, message)\<close> and the private \<open>EsError(message)\<close> are declared
  in error.hh and defined in error.cc, which is not among the sources. An error is
  constructible from a message value and reports it through \<open>message()\<close>, with the name
  its class passes up; the generic class is named Error.
\<close>

definition EsError_name_message :: "error_class \<Rightarrow> EsString \<Rightarrow> EsString \<Rightarrow> error_object" where
  "EsError_name_message T nm msg = \<lparr>dynamic_class = T, name = nm, message = msg\<rparr>"

definition EsError_message :: "EsString \<Rightarrow> error_object" where
  "EsError_message msg = EsError_name_message EsError (ESTR ''Error'') msg"

definition EsNativeError :: "error_class \<Rightarrow> EsString \<Rightarrow> EsString \<Rightarrow> error_object" where
  "EsNativeError T nm msg = EsError_name_message T nm msg"

text \<open>The public constructors of the six native error classes, as error.hh writes them.\<close>

definition new_EsEvalError :: "EsString \<Rightarrow> error_object" where
  "new_EsEvalError msg = EsNativeError EsEvalError (ESTR ''EvalError'') msg"

definition new_EsRangeError :: "EsString \<Rightarrow> error_object" where
  "new_EsRangeError msg = EsNativeError EsRangeError (ESTR ''RangeError'') msg"

definition new_EsReferenceError :: "EsString \<Rightarrow> error_object" where
  "new_EsReferenceError msg = EsNativeError EsReferenceError (ESTR ''ReferenceError'') msg"

definition new_EsSyntaxError :: "EsString \<Rightarrow> error_object" where
  "new_EsSyntaxError msg = EsNativeError EsSyntaxError (ESTR ''SyntaxError'') msg"

definition new_EsTypeError :: "EsString \<Rightarrow> error_object" where
  "new_EsTypeError msg = EsNativeError EsTypeError (ESTR ''TypeError'') msg"

definition new_EsUriError :: "EsString \<Rightarrow> error_object" where
  "new_EsUriError msg = EsNativeError EsUriError (ESTR ''URIError'') msg"

text \<open>
  Modelled from the spec: \<open>T::create_inst(message)\<close>, declared in error.hh for
  \<open>EsError\<close> and for \<open>EsNativeError<T>\<close> and defined in error.cc. Each error class is
  constructible from a message value: \<open>create_inst\<close> builds the instance with the
  constructor of the class \<open>T\<close>.
\<close>

fun create_inst :: "error_class \<Rightarrow> EsString \<Rightarrow> error_object" where
  "create_inst EsError msg = EsError_message msg"
| "create_inst EsEvalError msg = new_EsEvalError msg"
| "create_inst EsRangeError msg = new_EsRangeError msg"
| "create_inst EsReferenceError msg = new_EsReferenceError msg"
| "create_inst EsSyntaxError msg = new_EsSyntaxError msg"
| "create_inst EsTypeError msg = new_EsTypeError msg"
| "create_inst EsUriError msg = new_EsUriError msg"

text \<open>
  Modelled from the spec: \<open>EsValue::from_obj\<close> (value.hh), \<open>EsContext\<close> and
  \<open>EsContextStack\<close> (context.hh) are not among the sources. A value made of an object
  is that object; a context has a pending-exception slot that holds nothing or a value;
  the context stack is a list of contexts with the topmost first. \<open>top()\<close> of an empty
  stack has no context to return.
\<close>

datatype EsValue = from_obj error_object

record EsContext =
  pending_exception :: "EsValue option"

type_synonym EsContextStack = "EsContext list"

definition set_pending_exception :: "EsValue \<Rightarrow> EsContext \<Rightarrow> EsContext" where
  "set_pending_exception e ctx = ctx\<lparr>pending_exception := Some e\<rparr>"

text \<open>
  \<open>es_throw<T>(message)\<close>, the form of release builds: the template argument is the
  first parameter, the global context stack is passed and returned.
\<close>

definition es_throw :: "error_class \<Rightarrow> EsString \<Rightarrow> EsContextStack \<Rightarrow> error + EsContextStack" where
  "es_throw T msg stack =
     (let e = from_obj (create_inst T msg)
      in case stack of
           [] \<Rightarrow> Inl NoContext
         | ctx # rest \<Rightarrow> Inr (set_pending_exception e ctx # rest))"

text \<open>
  \<open>es_throw<T>(file, line, orig_message)\<close>, the form of debug builds, which first
  formats the message as \<open>"[%s:%d] %S"\<close>.
\<close>

definition decimal_int :: "int \<Rightarrow> string" where
  "decimal_int i = (if i < 0 then ''-'' @ decimal (nat (- i)) else decimal (nat i))"

definition sprintf_file_line :: "string \<Rightarrow> int \<Rightarrow> EsString \<Rightarrow> EsString" where
  "sprintf_file_line file line orig_message =
     ''['' @ file @ '':'' @ decimal_int line @ ''] '' @ orig_message"

definition es_throw_DEBUG ::
  "error_class \<Rightarrow> string \<Rightarrow> int \<Rightarrow> EsString \<Rightarrow> EsContextStack \<Rightarrow> error + EsContextStack" where
  "es_throw_DEBUG T file line orig_message stack =
     es_throw T (sprintf_file_line file line orig_message) stack"

section \<open>Instructions (src/ir/ir.hh, class Instruction and its subclasses)\<close>

datatype ArrayInstruction_Operation = Array_GET | Array_PUT

datatype BinaryInstruction_Operation = Binary_ADD | Binary_SUB | Binary_OR | Binary_EQ

datatype CallInstruction_Operation = Call_NORMAL | Call_NAMED | Call_NEW

datatype ValueInstruction_Operation =
    TO_BOOLEAN | TO_DOUBLE | TO_STRING
  | FROM_BOOLEAN | FROM_DOUBLE | FROM_STRING
  | IS_NULL | IS_UNDEFINED | TEST_COERCIBILITY

datatype Declaration_Kind =
  Declaration_FUNCTION | Declaration_VARIABLE | Declaration_PARAMETER

datatype Link_Kind = Link_FUNCTION | Link_VARIABLE | Link_PARAMETER

datatype EsBinaryInstruction_Operation =
    EsBinary_MUL | EsBinary_DIV | EsBinary_MOD | EsBinary_ADD | EsBinary_SUB
  | EsBinary_LS | EsBinary_RSS | EsBinary_RUS
  | EsBinary_LT | EsBinary_GT | EsBinary_LTE | EsBinary_GTE
  | EsBinary_IN | EsBinary_INSTANCEOF
  | EsBinary_EQ | EsBinary_NEQ | EsBinary_STRICT_EQ | EsBinary_STRICT_NEQ
  | EsBinary_BIT_AND | EsBinary_BIT_XOR | EsBinary_BIT_OR

datatype EsUnaryInstruction_Operation =
  EsUnary_TYPEOF | EsUnary_NEG | EsUnary_BIT_NOT | EsUnary_LOG_NOT

text \<open>
  One constructor for each concrete instruction class, with the private fields in the
  order of their declaration. A field that only some constructors of the class set is an
  option. A \<open>Block *\<close> or \<open>Function *\<close> is an address of the store. The three
  terminators start with the field \<open>block_\<close> of \<open>TerminateInstruction\<close>, the block
  hosting the instruction. \<open>PhiInstruction\<close> is compiled out (\<open>#ifdef UNUSED\<close>).
\<close>

datatype (plugins only: code size) Instruction =
    ArgumentsObjectInitInstruction c_int
  | ArgumentsObjectLinkInstruction Value c_int Value
  | ArrayInstruction ArrayInstruction_Operation size_t Value "Value option"
  | BinaryInstruction BinaryInstruction_Operation Value Value
  | BindExtraInitInstruction c_int
  | BindExtraPtrInstruction c_int
  | CallInstruction CallInstruction_Operation Value c_int Value Value
  | CallKeyedInstruction Value uint64_t c_int Value Value
  | CallKeyedSlowInstruction Value Value c_int Value Value
  | CallNamedInstruction uint64_t c_int Value Value
  | ValueInstruction ValueInstruction_Operation Value "Value option"
  | BranchInstruction addr Value addr addr
  | JumpInstruction addr addr
  | ReturnInstruction addr Value
  | MemoryAllocInstruction Type
  | MemoryStoreInstruction Value Value
  | MemoryElementPointerInstruction Value size_t
  | MetaContextLoadInstruction uint64_t
  | MetaPropertyLoadInstruction Value Value
  | ContextSetStrictInstruction bool
  | ContextEnterCatchInstruction uint64_t
  | ContextEnterWithInstruction Value
  | ContextLeaveInstruction
  | ContextThisInstruction
  | ContextGetInstruction uint64_t Value uint16_t
  | ContextPutInstruction uint64_t Value uint16_t
  | ContextDeleteInstruction uint64_t Value
  | ExceptionSaveStateInstruction
  | ExceptionLoadStateInstruction Value
  | ExceptionSetInstruction Value
  | ExceptionClearInstruction
  | InitArgumentsInstruction Value c_int
  | InitArgumentsObjectInstruction c_int Value
  | Declaration Declaration_Kind uint64_t bool "Value option" "c_int option" "Value option"
  | Link Link_Kind uint64_t bool Value
  | PropertyDefineDataInstruction Value Value Value
  | PropertyDefineAccessorInstruction Value uint64_t Value bool
  | PropertyIteratorNewInstruction Value
  | PropertyIteratorNextInstruction Value Value
  | PropertyGetInstruction Value uint64_t Value
  | PropertyGetSlowInstruction Value Value Value
  | PropertyPutInstruction Value uint64_t Value
  | PropertyPutSlowInstruction Value Value Value
  | PropertyDeleteInstruction Value uint64_t Value
  | PropertyDeleteSlowInstruction Value Value Value
  | EsNewArrayInstruction size_t Value
  | EsNewFunctionDeclarationInstruction addr c_int bool
  | EsNewFunctionExpressionInstruction addr c_int bool
  | EsNewObjectInstruction
  | EsNewRegexInstruction String String
  | EsBinaryInstruction EsBinaryInstruction_Operation Value Value Value
  | EsUnaryInstruction EsUnaryInstruction_Operation Value Value

text \<open>
  The class each concrete class derives from: \<open>TerminateInstruction\<close> for the branch,
  jump and return instructions, \<open>MetaInstruction\<close> for the two meta loads,
  \<open>Instruction\<close> for all others.
\<close>

datatype base_class = Instruction_class | TerminateInstruction_class | MetaInstruction_class

fun direct_base :: "Instruction \<Rightarrow> base_class" where
  "direct_base (BranchInstruction host cond true_block false_block) = TerminateInstruction_class"
| "direct_base (JumpInstruction host block) = TerminateInstruction_class"
| "direct_base (ReturnInstruction host val) = TerminateInstruction_class"
| "direct_base (MetaContextLoadInstruction key) = MetaInstruction_class"
| "direct_base (MetaPropertyLoadInstruction obj key) = MetaInstruction_class"
| "direct_base i = Instruction_class"

text \<open>
  The virtual \<open>is_terminating()\<close>: \<open>Instruction\<close> returns false,
  \<open>TerminateInstruction\<close> overrides it to return true, \<open>MetaInstruction\<close> and every
  concrete class inherit the body of their base.
\<close>

fun is_terminating_in :: "base_class \<Rightarrow> bool" where
  "is_terminating_in Instruction_class = False"
| "is_terminating_in TerminateInstruction_class = True"
| "is_terminating_in MetaInstruction_class = False"

definition is_terminating :: "Instruction \<Rightarrow> bool" where
  "is_terminating i = is_terminating_in (direct_base i)"

text \<open>
  The blocks a terminator refers to: \<open>true_block()\<close> and \<open>false_block()\<close> of a
  branch, \<open>block()\<close> of a jump. A return refers to no block.
\<close>

fun targets :: "Instruction \<Rightarrow> addr list" where
  "targets (BranchInstruction host cond true_block false_block) = [true_block, false_block]"
| "targets (JumpInstruction host block) = [block]"
| "targets i = []"

section \<open>Blocks, functions and the builder (declared in src/ir/ir.hh)\<close>

text \<open>
  Blocks, instructions and functions are heap objects that refer to each other by
  pointer: a terminator holds the blocks it transfers to, a block holds the terminators
  that refer to it. They live in a store that maps addresses to objects; \<open>new (GC)\<close>
  takes the next free address, and address 0 is the null pointer.
\<close>

record Block =
  Block_label :: string
  Block_instructions :: "addr list"
  Block_referrers :: "addr set"

record Function =
  Function_is_global :: bool
  Function_name :: string
  Function_blocks :: "addr list"

record store =
  block_at :: "addr \<rightharpoonup> Block"
  instruction_at :: "addr \<rightharpoonup> Instruction"
  function_at :: "addr \<rightharpoonup> Function"
  next_free :: addr

definition empty_store :: store where
  "empty_store =
     \<lparr>block_at = Map.empty, instruction_at = Map.empty, function_at = Map.empty,
      next_free = 1\<rparr>"

text \<open>
  Modelled from the spec: the member functions of \<open>Block\<close> and \<open>Function\<close> are declared
  in ir.hh and defined in ir.cc, which is not among the sources. The definitions of this
  section follow the declarations, their documentation comments and the specification:
  a block is created empty, with an optional label and no referrer; a function is created
  with one initial block, the entry block; \<open>push_block\<close> appends a block;
  \<open>last_block\<close> is the last block of the list; \<open>add_referrer\<close> and
  \<open>remove_referrer\<close> insert into and forget_reference_names from the referrer set; each factory
  allocates an instruction, registers a terminator in the referrer sets of its target
  blocks, appends the instruction to the block and returns it; a factory call on a block
  whose last instruction is a terminator is a programming error.
\<close>

definition new_Block :: "string \<Rightarrow> store \<Rightarrow> addr \<times> store" where
  "new_Block l s =
     (let a = next_free s
      in (a, s\<lparr>block_at := (block_at s)
                   (a \<mapsto> \<lparr>Block_label = l, Block_instructions = [], Block_referrers = {}\<rparr>),
               next_free := Suc a\<rparr>))"

definition new_Function :: "string \<Rightarrow> bool \<Rightarrow> store \<Rightarrow> addr \<times> store" where
  "new_Function n g s =
     (let (b, s1) = new_Block [] s;
          f = next_free s1
      in (f, s1\<lparr>function_at := (function_at s1)
                    (f \<mapsto> \<lparr>Function_is_global = g, Function_name = n, Function_blocks = [b]\<rparr>),
                next_free := Suc f\<rparr>))"

definition push_block :: "addr \<Rightarrow> addr \<Rightarrow> store \<Rightarrow> error + store" where
  "push_block f b s =
     (case function_at s f of
        None \<Rightarrow> Inl InvalidPointer
      | Some F \<Rightarrow>
          (case block_at s b of
             None \<Rightarrow> Inl InvalidPointer
           | Some B \<Rightarrow>
               Inr (s\<lparr>function_at := (function_at s)
                         (f \<mapsto> F\<lparr>Function_blocks := Function_blocks F @ [b]\<rparr>)\<rparr>)))"

text \<open>\<open>last_block\<close> returns a pointer; \<open>None\<close> is the null pointer.\<close>

definition last_block :: "Function \<Rightarrow> addr option" where
  "last_block F =
     (if Function_blocks F = [] then None else Some (last (Function_blocks F)))"

definition add_referrer :: "addr \<Rightarrow> addr \<Rightarrow> store \<Rightarrow> error + store" where
  "add_referrer b instr s =
     (case block_at s b of
        None \<Rightarrow> Inl InvalidPointer
      | Some B \<Rightarrow>
          Inr (s\<lparr>block_at := (block_at s)
                    (b \<mapsto> B\<lparr>Block_referrers := insert instr (Block_referrers B)\<rparr>)\<rparr>))"

definition remove_referrer :: "addr \<Rightarrow> addr \<Rightarrow> store \<Rightarrow> error + store" where
  "remove_referrer b instr s =
     (case block_at s b of
        None \<Rightarrow> Inl InvalidPointer
      | Some B \<Rightarrow>
          Inr (s\<lparr>block_at := (block_at s)
                    (b \<mapsto> B\<lparr>Block_referrers := Block_referrers B - {instr}\<rparr>)\<rparr>))"

text \<open>Whether the instruction at an address is a terminator.\<close>

definition terminator_at :: "store \<Rightarrow> addr \<Rightarrow> bool" where
  "terminator_at s a =
     (case instruction_at s a of None \<Rightarrow> False | Some i \<Rightarrow> is_terminating i)"

text \<open>A block is terminated when its last instruction is a terminator.\<close>

definition terminated :: "store \<Rightarrow> Block \<Rightarrow> bool" where
  "terminated s B =
     (Block_instructions B \<noteq> [] \<and> terminator_at s (last (Block_instructions B)))"

text \<open>The private \<open>push_instr\<close> appends an instruction to the list of the block.\<close>

definition push_instr :: "addr \<Rightarrow> addr \<Rightarrow> store \<Rightarrow> error + store" where
  "push_instr b instr s =
     (case block_at s b of
        None \<Rightarrow> Inl InvalidPointer
      | Some B \<Rightarrow>
          Inr (s\<lparr>block_at := (block_at s)
                    (b \<mapsto> B\<lparr>Block_instructions := Block_instructions B @ [instr]\<rparr>)\<rparr>))"

text \<open>The constructor of a terminator registers it with each of its target blocks.\<close>

fun add_referrers :: "addr \<Rightarrow> addr list \<Rightarrow> store \<Rightarrow> error + store" where
  "add_referrers instr [] s = Inr s"
| "add_referrers instr (t # ts) s =
     (case add_referrer t instr s of
        Inl e \<Rightarrow> Inl e
      | Inr s' \<Rightarrow> add_referrers instr ts s')"

text \<open>
  Un-registering a terminator from each of its target blocks, which is what replacing
  it requires.
\<close>

fun remove_referrers :: "addr \<Rightarrow> addr list \<Rightarrow> store \<Rightarrow> error + store" where
  "remove_referrers instr [] s = Inr s"
| "remove_referrers instr (t # ts) s =
     (case remove_referrer t instr s of
        Inl e \<Rightarrow> Inl e
      | Inr s' \<Rightarrow> remove_referrers instr ts s')"

text \<open>
  The factories of \<open>Block\<close>, one constructor per declared member function with its
  parameters in order (\<open>push_phi_2\<close> is compiled out).
\<close>

datatype (plugins only: code size) factory =
    push_args_obj_init c_int
  | push_args_obj_link Value c_int Value
  | push_arr_get size_t Value
  | push_arr_put size_t Value Value
  | push_bin_add Value Value
  | push_bin_sub Value Value
  | push_bin_or Value Value
  | push_bin_eq Value Value
  | push_bnd_extra_init c_int
  | push_bnd_extra_ptr c_int
  | push_call Value c_int Value Value
  | push_call_keyed Value uint64_t c_int Value Value
  | push_call_keyed_slow Value Value c_int Value Value
  | push_call_named uint64_t c_int Value Value
  | push_call_new Value c_int Value Value
  | push_mem_alloc Type
  | push_mem_store Value Value
  | push_mem_elm_ptr Value size_t
  | push_prp_def_data Value Value Value
  | push_prp_def_accessor Value uint64_t Value bool
  | push_prp_it_new Value
  | push_prp_it_next Value Value
  | push_prp_get Value uint64_t Value
  | push_prp_get_slow Value Value Value
  | push_prp_put Value uint64_t Value
  | push_prp_put_slow Value Value Value
  | push_prp_del Value uint64_t Value
  | push_prp_del_slow Value Value Value
  | push_trm_br Value addr addr
  | push_trm_jmp addr
  | push_trm_ret Value
  | push_val_to_bool Value
  | push_val_to_double Value Value
  | push_val_to_str Value Value
  | push_val_from_bool Value
  | push_val_from_double Value
  | push_val_from_str Value
  | push_val_is_null Value
  | push_val_is_undefined Value
  | push_val_tst_coerc Value
  | push_meta_ctx_load uint64_t
  | push_meta_prp_load Value Value
  | push_ctx_set_strict bool
  | push_ctx_enter_catch uint64_t
  | push_ctx_enter_with Value
  | push_ctx_leave
  | push_ctx_this
  | push_ctx_get uint64_t Value uint16_t
  | push_ctx_put uint64_t Value uint16_t
  | push_ctx_del uint64_t Value
  | push_ex_save_state
  | push_ex_load_state Value
  | push_ex_set Value
  | push_ex_clear
  | push_init_args Value c_int
  | push_init_args_obj c_int Value
  | push_decl_var uint64_t bool
  | push_decl_fun uint64_t bool Value
  | push_decl_prm uint64_t bool c_int Value
  | push_link_var uint64_t bool Value
  | push_link_fun uint64_t bool Value
  | push_link_prm uint64_t bool Value
  | push_es_new_arr size_t Value
  | push_es_new_fun addr c_int bool
  | push_es_new_fun_expr addr c_int bool
  | push_es_new_obj
  | push_es_new_rex String String
  | push_es_bin_mul Value Value Value
  | push_es_bin_div Value Value Value
  | push_es_bin_mod Value Value Value
  | push_es_bin_add Value Value Value
  | push_es_bin_sub Value Value Value
  | push_es_bin_ls Value Value Value
  | push_es_bin_rss Value Value Value
  | push_es_bin_rus Value Value Value
  | push_es_bin_lt Value Value Value
  | push_es_bin_gt Value Value Value
  | push_es_bin_lte Value Value Value
  | push_es_bin_gte Value Value Value
  | push_es_bin_in Value Value Value
  | push_es_bin_instanceof Value Value Value
  | push_es_bin_eq Value Value Value
  | push_es_bin_neq Value Value Value
  | push_es_bin_strict_eq Value Value Value
  | push_es_bin_strict_neq Value Value Value
  | push_es_bin_bit_and Value Value Value
  | push_es_bin_bit_xor Value Value Value
  | push_es_bin_bit_or Value Value Value
  | push_es_unary_typeof Value Value
  | push_es_unary_neg Value Value
  | push_es_unary_bit_not Value Value
  | push_es_unary_log_not Value Value

text \<open>
  The instruction a factory allocates when called on the block \<open>this\<close>: the instruction
  variant of its name, holding the operands it was given.
\<close>

definition instruction_of :: "addr \<Rightarrow> factory \<Rightarrow> Instruction" where
  "instruction_of this c =
     (case c of
        push_args_obj_init argc \<Rightarrow> ArgumentsObjectInitInstruction argc
      | push_args_obj_link args index val \<Rightarrow> ArgumentsObjectLinkInstruction args index val
      | push_arr_get index arr \<Rightarrow> ArrayInstruction Array_GET index arr None
      | push_arr_put index arr val \<Rightarrow> ArrayInstruction Array_PUT index arr (Some val)
      | push_bin_add op1 op2 \<Rightarrow> BinaryInstruction Binary_ADD op1 op2
      | push_bin_sub op1 op2 \<Rightarrow> BinaryInstruction Binary_SUB op1 op2
      | push_bin_or op1 op2 \<Rightarrow> BinaryInstruction Binary_OR op1 op2
      | push_bin_eq op1 op2 \<Rightarrow> BinaryInstruction Binary_EQ op1 op2
      | push_bnd_extra_init num_extra \<Rightarrow> BindExtraInitInstruction num_extra
      | push_bnd_extra_ptr hops \<Rightarrow> BindExtraPtrInstruction hops
      | push_call f argc argv res \<Rightarrow> CallInstruction Call_NORMAL f argc argv res
      | push_call_keyed obj key argc argv res \<Rightarrow> CallKeyedInstruction obj key argc argv res
      | push_call_keyed_slow obj key argc argv res \<Rightarrow>
          CallKeyedSlowInstruction obj key argc argv res
      | push_call_named key argc argv res \<Rightarrow> CallNamedInstruction key argc argv res
      | push_call_new f argc argv res \<Rightarrow> CallInstruction Call_NEW f argc argv res
      | push_mem_alloc ty \<Rightarrow> MemoryAllocInstruction ty
      | push_mem_store dst src \<Rightarrow> MemoryStoreInstruction dst src
      | push_mem_elm_ptr val index \<Rightarrow> MemoryElementPointerInstruction val index
      | push_prp_def_data obj key val \<Rightarrow> PropertyDefineDataInstruction obj key val
      | push_prp_def_accessor obj key f is_setter \<Rightarrow>
          PropertyDefineAccessorInstruction obj key f is_setter
      | push_prp_it_new obj \<Rightarrow> PropertyIteratorNewInstruction obj
      | push_prp_it_next it val \<Rightarrow> PropertyIteratorNextInstruction it val
      | push_prp_get obj key res \<Rightarrow> PropertyGetInstruction obj key res
      | push_prp_get_slow obj key res \<Rightarrow> PropertyGetSlowInstruction obj key res
      | push_prp_put obj key val \<Rightarrow> PropertyPutInstruction obj key val
      | push_prp_put_slow obj key val \<Rightarrow> PropertyPutSlowInstruction obj key val
      | push_prp_del obj key res \<Rightarrow> PropertyDeleteInstruction obj key res
      | push_prp_del_slow obj key res \<Rightarrow> PropertyDeleteSlowInstruction obj key res
      | push_trm_br cond true_block false_block \<Rightarrow>
          BranchInstruction this cond true_block false_block
      | push_trm_jmp block \<Rightarrow> JumpInstruction this block
      | push_trm_ret val \<Rightarrow> ReturnInstruction this val
      | push_val_to_bool val \<Rightarrow> ValueInstruction TO_BOOLEAN val None
      | push_val_to_double val res \<Rightarrow> ValueInstruction TO_DOUBLE val (Some res)
      | push_val_to_str val res \<Rightarrow> ValueInstruction TO_STRING val (Some res)
      | push_val_from_bool val \<Rightarrow> ValueInstruction FROM_BOOLEAN val None
      | push_val_from_double val \<Rightarrow> ValueInstruction FROM_DOUBLE val None
      | push_val_from_str val \<Rightarrow> ValueInstruction FROM_STRING val None
      | push_val_is_null val \<Rightarrow> ValueInstruction IS_NULL val None
      | push_val_is_undefined val \<Rightarrow> ValueInstruction IS_UNDEFINED val None
      | push_val_tst_coerc val \<Rightarrow> ValueInstruction TEST_COERCIBILITY val None
      | push_meta_ctx_load key \<Rightarrow> MetaContextLoadInstruction key
      | push_meta_prp_load obj key \<Rightarrow> MetaPropertyLoadInstruction obj key
      | push_ctx_set_strict strict \<Rightarrow> ContextSetStrictInstruction strict
      | push_ctx_enter_catch key \<Rightarrow> ContextEnterCatchInstruction key
      | push_ctx_enter_with val \<Rightarrow> ContextEnterWithInstruction val
      | push_ctx_leave \<Rightarrow> ContextLeaveInstruction
      | push_ctx_this \<Rightarrow> ContextThisInstruction
      | push_ctx_get key res cid \<Rightarrow> ContextGetInstruction key res cid
      | push_ctx_put key val cid \<Rightarrow> ContextPutInstruction key val cid
      | push_ctx_del key res \<Rightarrow> ContextDeleteInstruction key res
      | push_ex_save_state \<Rightarrow> ExceptionSaveStateInstruction
      | push_ex_load_state state \<Rightarrow> ExceptionLoadStateInstruction state
      | push_ex_set val \<Rightarrow> ExceptionSetInstruction val
      | push_ex_clear \<Rightarrow> ExceptionClearInstruction
      | push_init_args dst prmc \<Rightarrow> InitArgumentsInstruction dst prmc
      | push_init_args_obj prmc prmv \<Rightarrow> InitArgumentsObjectInstruction prmc prmv
      | push_decl_var key is_strict \<Rightarrow>
          Declaration Declaration_VARIABLE key is_strict None None None
      | push_decl_fun key is_strict f \<Rightarrow>
          Declaration Declaration_FUNCTION key is_strict (Some f) None None
      | push_decl_prm key is_strict prm_index prm_array \<Rightarrow>
          Declaration Declaration_PARAMETER key is_strict None (Some prm_index) (Some prm_array)
      | push_link_var key is_strict var \<Rightarrow> Link Link_VARIABLE key is_strict var
      | push_link_fun key is_strict f \<Rightarrow> Link Link_FUNCTION key is_strict f
      | push_link_prm key is_strict prm \<Rightarrow> Link Link_PARAMETER key is_strict prm
      | push_es_new_arr len vals \<Rightarrow> EsNewArrayInstruction len vals
      | push_es_new_fun f param_count is_strict \<Rightarrow>
          EsNewFunctionDeclarationInstruction f param_count is_strict
      | push_es_new_fun_expr f param_count is_strict \<Rightarrow>
          EsNewFunctionExpressionInstruction f param_count is_strict
      | push_es_new_obj \<Rightarrow> EsNewObjectInstruction
      | push_es_new_rex pattern flags \<Rightarrow> EsNewRegexInstruction pattern flags
      | push_es_bin_mul op1 op2 res \<Rightarrow> EsBinaryInstruction EsBinary_MUL op1 op2 res
      | push_es_bin_div op1 op2 res \<Rightarrow> EsBinaryInstruction EsBinary_DIV op1 op2 res
      | push_es_bin_mod op1 op2 res \<Rightarrow> EsBinaryInstruction EsBinary_MOD op1 op2 res
      | push_es_bin_add op1 op2 res \<Rightarrow> EsBinaryInstruction EsBinary_ADD op1 op2 res
      | push_es_bin_sub op1 op2 res \<Rightarrow> EsBinaryInstruction EsBinary_SUB op1 op2 res
      | push_es_bin_ls op1 op2 res \<Rightarrow> EsBinaryInstruction EsBinary_LS op1 op2 res
      | push_es_bin_rss op1 op2 res \<Rightarrow> EsBinaryInstruction EsBinary_RSS op1 op2 res
      | push_es_bin_rus op1 op2 res \<Rightarrow> EsBinaryInstruction EsBinary_RUS op1 op2 res
      | push_es_bin_lt op1 op2 res \<Rightarrow> EsBinaryInstruction EsBinary_LT op1 op2 res
      | push_es_bin_gt op1 op2 res \<Rightarrow> EsBinaryInstruction EsBinary_GT op1 op2 res
      | push_es_bin_lte op1 op2 res \<Rightarrow> EsBinaryInstruction EsBinary_LTE op1 op2 res
      | push_es_bin_gte op1 op2 res \<Rightarrow> EsBinaryInstruction EsBinary_GTE op1 op2 res
      | push_es_bin_in op1 op2 res \<Rightarrow> EsBinaryInstruction EsBinary_IN op1 op2 res
      | push_es_bin_instanceof op1 op2 res \<Rightarrow>
          EsBinaryInstruction EsBinary_INSTANCEOF op1 op2 res
      | push_es_bin_eq op1 op2 res \<Rightarrow> EsBinaryInstruction EsBinary_EQ op1 op2 res
      | push_es_bin_neq op1 op2 res \<Rightarrow> EsBinaryInstruction EsBinary_NEQ op1 op2 res
      | push_es_bin_strict_eq op1 op2 res \<Rightarrow>
          EsBinaryInstruction EsBinary_STRICT_EQ op1 op2 res
      | push_es_bin_strict_neq op1 op2 res \<Rightarrow>
          EsBinaryInstruction EsBinary_STRICT_NEQ op1 op2 res
      | push_es_bin_bit_and op1 op2 res \<Rightarrow> EsBinaryInstruction EsBinary_BIT_AND op1 op2 res
      | push_es_bin_bit_xor op1 op2 res \<Rightarrow> EsBinaryInstruction EsBinary_BIT_XOR op1 op2 res
      | push_es_bin_bit_or op1 op2 res \<Rightarrow> EsBinaryInstruction EsBinary_BIT_OR op1 op2 res
      | push_es_unary_typeof op1 res \<Rightarrow> EsUnaryInstruction EsUnary_TYPEOF op1 res
      | push_es_unary_neg op1 res \<Rightarrow> EsUnaryInstruction EsUnary_NEG op1 res
      | push_es_unary_bit_not op1 res \<Rightarrow> EsUnaryInstruction EsUnary_BIT_NOT op1 res
      | push_es_unary_log_not op1 res \<Rightarrow> EsUnaryInstruction EsUnary_LOG_NOT op1 res)"

text \<open>The three factories of terminators.\<close>

fun is_terminator_factory :: "factory \<Rightarrow> bool" where
  "is_terminator_factory (push_trm_br cond true_block false_block) = True"
| "is_terminator_factory (push_trm_jmp block) = True"
| "is_terminator_factory (push_trm_ret val) = True"
| "is_terminator_factory c = False"

text \<open>
  A factory call \<open>this->push_...(...)\<close>. It fails as a programming error on a block
  whose last instruction is a terminator. Otherwise it allocates the instruction,
  registers it with its target blocks, appends it and returns its address.
\<close>

definition call :: "addr \<Rightarrow> factory \<Rightarrow> store \<Rightarrow> error + (addr \<times> store)" where
  "call this c s =
     (case block_at s this of
        None \<Rightarrow> Inl InvalidPointer
      | Some B \<Rightarrow>
          if terminated s B then Inl ProgrammingError
          else
            let instr = next_free s;
                i = instruction_of this c;
                s1 = s\<lparr>instruction_at := (instruction_at s)(instr \<mapsto> i),
                       next_free := Suc instr\<rparr>
            in case add_referrers instr (targets i) s1 of
                 Inl e \<Rightarrow> Inl e
               | Inr s2 \<Rightarrow>
                   (case push_instr this instr s2 of
                      Inl e \<Rightarrow> Inl e
                    | Inr s3 \<Rightarrow> Inr (instr, s3)))"

text \<open>
  A program of the builder: a sequence of constructions and calls, run from the empty
  store. It stops at the first failure.
\<close>

datatype op =
    New_Block string
  | New_Function string bool
  | Push_block addr addr
  | Call addr factory

fun step :: "op \<Rightarrow> store \<Rightarrow> error + store" where
  "step (New_Block l) s = Inr (snd (new_Block l s))"
| "step (New_Function n g) s = Inr (snd (new_Function n g s))"
| "step (Push_block f b) s = push_block f b s"
| "step (Call this c) s =
     (case call this c s of Inl e \<Rightarrow> Inl e | Inr (instr, s') \<Rightarrow> Inr s')"

fun run :: "op list \<Rightarrow> store \<Rightarrow> error + store" where
  "run [] s = Inr s"
| "run (x # xs) s = (case step x s of Inl e \<Rightarrow> Inl e | Inr s' \<Rightarrow> run xs s')"

section \<open>Invariants of the builder\<close>

text \<open>
  Allocation: every block and every instruction in use lies below the next free address,
  so that a new object never takes the place of one in use.
\<close>

definition addresses_allocated :: "store \<Rightarrow> bool" where
  "addresses_allocated s \<longleftrightarrow>
     (\<forall>x B. block_at s x = Some B \<longrightarrow>
        x < next_free s
        \<and> (\<forall>a. a \<in> set (Block_instructions B) \<longrightarrow> a < next_free s))
     \<and> (\<forall>a i. instruction_at s a = Some i \<longrightarrow> a < next_free s)"

text \<open>
  A terminator is only ever the last instruction of a block: no instruction of the block
  that has a successor in it is a terminator (``terminating instructions are not allowed
  anywhere else but the last instruction in a block'', ir.hh).
\<close>

definition terminators_last :: "store \<Rightarrow> Block \<Rightarrow> bool" where
  "terminators_last s B \<longleftrightarrow>
     (\<forall>k. Suc k < length (Block_instructions B)
          \<longrightarrow> \<not> terminator_at s (Block_instructions B ! k))"

text \<open>
  Referrer closure, first half: a terminator in the instruction list of a block is in the
  referrer set of every block it refers to.
\<close>

definition referrers_complete :: "store \<Rightarrow> bool" where
  "referrers_complete s \<longleftrightarrow>
     (\<forall>b B T i b'. block_at s b = Some B \<and> T \<in> set (Block_instructions B)
        \<and> instruction_at s T = Some i \<and> is_terminating i \<and> b' \<in> set (targets i)
        \<longrightarrow> (\<exists>B'. block_at s b' = Some B' \<and> T \<in> Block_referrers B'))"

text \<open>
  Referrer closure, second half: every member of the referrer set of a block is an
  instruction whose targets contain that block.
\<close>

definition referrers_sound :: "store \<Rightarrow> bool" where
  "referrers_sound s \<longleftrightarrow>
     (\<forall>b' B' T. block_at s b' = Some B' \<and> T \<in> Block_referrers B'
        \<longrightarrow> (\<exists>i. instruction_at s T = Some i \<and> b' \<in> set (targets i)))"

text \<open>What every step of the builder preserves.\<close>

definition builder_invariant :: "store \<Rightarrow> bool" where
  "builder_invariant s \<longleftrightarrow>
     addresses_allocated s
     \<and> (\<forall>b B. block_at s b = Some B \<longrightarrow> terminators_last s B)
     \<and> referrers_complete s \<and> referrers_sound s
     \<and> (\<forall>f F. function_at s f = Some F \<longrightarrow> Function_blocks F \<noteq> [])"

text \<open>
  A small program of the builder, used to evaluate the theorems below: a function
  \<open>f\<close> (entry block at address 1, function at 2), a second block \<open>exit\<close> (3)
  appended to it, then \<open>ctx_set_strict\<close> (4) and a jump to \<open>exit\<close> (5) in the
  entry block and a return (6) in \<open>exit\<close>.
\<close>

definition sample_program :: "op list" where
  "sample_program =
     [New_Function ''f'' False,
      New_Block ''exit'',
      Push_block 2 3,
      Call 1 (push_ctx_set_strict False),
      Call 1 (push_trm_jmp 3),
      Call 3 (push_trm_ret (ValueConstant VALUE_UNDEFINED))]"

definition sample_store :: store where
  "sample_store = (case run sample_program empty_store of Inr s \<Rightarrow> s | Inl e \<Rightarrow> empty_store)"

definition sample_entry :: Block where
  "sample_entry = \<lparr>Block_label = [], Block_instructions = [4, 5], Block_referrers = {}\<rparr>"

definition sample_exit :: Block where
  "sample_exit = \<lparr>Block_label = ''exit'', Block_instructions = [6], Block_referrers = {5}\<rparr>"

text \<open>The sample store after the jump is un-registered from its target.\<close>

definition sample_unregistered :: store where
  "sample_unregistered =
     (case remove_referrers 5 [3] sample_store of Inr s \<Rightarrow> s | Inl e \<Rightarrow> empty_store)"

section \<open>Equality and order of types\<close>

lemma ordinal_inj: "ordinal i = ordinal j \<longleftrightarrow> i = j"
  by (cases i; cases j; simp)

lemma ordinal_linear: "ordinal i < ordinal j \<or> i = j \<or> ordinal j < ordinal i"
  using ordinal_inj[of i j] by linarith

lemma equal_to_well_formed:
  "well_formed x \<Longrightarrow> well_formed y \<Longrightarrow> equal_to x y = Inr (equal_up_to_reference_name x y)"
proof (induction x arbitrary: y)
  case (Type i) then show ?case by (cases y) auto
next
  case (ReferenceType n) then show ?case by (cases y) auto
next
  case (ArrayType t l) then show ?case by (cases y) auto
next
  case (PointerType t) then show ?case by (cases y) auto
next
  case (OpaqueType n) then show ?case by (cases y) auto
qed

lemma less_than_well_formed:
  "well_formed x \<Longrightarrow> well_formed y \<Longrightarrow> less_than x y = Inr (ordered_before x y)"
proof (induction x arbitrary: y)
  case (Type i) then show ?case by (cases y) auto
next
  case (ReferenceType n) then show ?case by (cases y) auto
next
  case (ArrayType t l) then show ?case by (cases y) (auto simp: equal_to_well_formed)
next
  case (PointerType t) then show ?case by (cases y) auto
next
  case (OpaqueType n) then show ?case by (cases y) auto
qed

lemma identifier_erase: "identifier (forget_reference_names x) = identifier x"
  by (cases x) simp_all

lemma well_formed_erase: "well_formed x \<Longrightarrow> well_formed (forget_reference_names x)"
  by (induction x) simp_all

lemma erase_idem: "forget_reference_names (forget_reference_names x) = forget_reference_names x"
  by (induction x) simp_all

text \<open>Two well-formed types are equal for the code when they differ in reference names only.\<close>

lemma equal_iff_erase:
  "well_formed x \<Longrightarrow> well_formed y \<Longrightarrow>
   equal_up_to_reference_name x y \<longleftrightarrow> forget_reference_names x = forget_reference_names y"
proof (induction x arbitrary: y)
  case (Type i) then show ?case by (cases y) auto
next
  case (ReferenceType n) then show ?case by (cases y) auto
next
  case (ArrayType t l)
  show ?case
  proof (cases y)
    case (ArrayType t' l')
    then show ?thesis using ArrayType.IH[of t'] ArrayType.prems by simp
  qed (use ArrayType.prems in auto)
next
  case (PointerType t)
  show ?case
  proof (cases y)
    case (PointerType t')
    then show ?thesis using PointerType.IH[of t'] PointerType.prems by simp
  qed (use PointerType.prems in auto)
next
  case (OpaqueType n) then show ?case by (cases y) auto
qed

lemma equal_refl: "equal_up_to_reference_name x x"
  by (induction x) auto

lemma equal_sym:
  "well_formed x \<Longrightarrow> well_formed y \<Longrightarrow>
   equal_up_to_reference_name x y = equal_up_to_reference_name y x"
  by (auto simp: equal_iff_erase)

lemma equal_trans:
  "well_formed x \<Longrightarrow> well_formed y \<Longrightarrow> well_formed z \<Longrightarrow>
   equal_up_to_reference_name x y \<Longrightarrow> equal_up_to_reference_name y z \<Longrightarrow>
   equal_up_to_reference_name x z"
  by (simp add: equal_iff_erase)

lemma ordered_before_erase:
  "well_formed x \<Longrightarrow> well_formed y \<Longrightarrow>
   ordered_before x y = ordered_before (forget_reference_names x) (forget_reference_names y)"
proof (induction x arbitrary: y)
  case (Type i) then show ?case by (cases y) auto
next
  case (ReferenceType n) then show ?case by (cases y) auto
next
  case (ArrayType t l)
  show ?case
  proof (cases y)
    case (ArrayType t' l')
    have wt: "well_formed t" "well_formed t'" using ArrayType.prems ArrayType by auto
    have "equal_up_to_reference_name (forget_reference_names t) (forget_reference_names t') = equal_up_to_reference_name t t'"
      using wt by (simp add: equal_iff_erase well_formed_erase erase_idem)
    then show ?thesis using ArrayType.IH[of t'] wt ArrayType by simp
  qed (use ArrayType.prems in auto)
next
  case (PointerType t)
  show ?case
  proof (cases y)
    case (PointerType t')
    then show ?thesis using PointerType.IH[of t'] PointerType.prems by simp
  qed (use PointerType.prems in auto)
next
  case (OpaqueType n) then show ?case by (cases y) auto
qed

lemma ordered_before_cong:
  assumes "well_formed x" "well_formed x'" "well_formed y" "well_formed y'"
    "equal_up_to_reference_name x x'" "equal_up_to_reference_name y y'"
  shows "ordered_before x y = ordered_before x' y'"
  using assms ordered_before_erase[of x y] ordered_before_erase[of x' y']
  by (simp add: equal_iff_erase)

lemma ordered_before_le:
  "ordered_before x y \<Longrightarrow> ordinal (identifier x) \<le> ordinal (identifier y)"
  by (induction x y rule: ordered_before.induct) simp_all

lemma ordered_before_irrefl: "\<not> ordered_before x x"
  by (induction x) (auto simp: equal_refl)

lemma differ_identifier:
  assumes "identifier x \<noteq> identifier y"
  shows "ordered_before x y = (ordinal (identifier x) < ordinal (identifier y))"
    and "\<not> equal_up_to_reference_name x y"
  using assms by (cases x; cases y; simp)+

lemma same_identifier_base:
  assumes "well_formed x" "well_formed y" "identifier x = identifier y"
    "identifier x \<noteq> ID_ARRAY" "identifier x \<noteq> ID_POINTER" "identifier x \<noteq> ID_OPAQUE"
  shows "\<not> ordered_before x y" and "equal_up_to_reference_name x y"
  using assms by (cases x; cases y; simp)+

lemma tri_differ:
  assumes "identifier x \<noteq> identifier y"
  shows "tri x y"
proof -
  have a: "ordered_before x y = (ordinal (identifier x) < ordinal (identifier y))"
    and b: "\<not> equal_up_to_reference_name x y"
    using assms by (rule differ_identifier)+
  have c: "ordered_before y x = (ordinal (identifier y) < ordinal (identifier x))"
    using assms differ_identifier(1)[of y x] by simp
  show ?thesis
    using a b c assms ordinal_linear[of "identifier x" "identifier y"]
    unfolding tri_def exactly_one_def by auto
qed

lemma tri_base:
  assumes "well_formed x" "well_formed y" "identifier x = identifier y"
    "identifier x \<noteq> ID_ARRAY" "identifier x \<noteq> ID_POINTER" "identifier x \<noteq> ID_OPAQUE"
  shows "tri x y"
  using same_identifier_base[of x y] same_identifier_base[of y x] assms
  unfolding tri_def exactly_one_def by auto

lemma well_formed_array:
  "well_formed y \<Longrightarrow> identifier y = ID_ARRAY \<Longrightarrow> \<exists>t l. y = ArrayType t l"
  by (cases y) auto

lemma well_formed_pointer:
  "well_formed y \<Longrightarrow> identifier y = ID_POINTER \<Longrightarrow> \<exists>t. y = PointerType t"
  by (cases y) auto

lemma well_formed_opaque:
  "well_formed y \<Longrightarrow> identifier y = ID_OPAQUE \<Longrightarrow> \<exists>n. y = OpaqueType n"
  by (cases y) auto

lemma trichotomy: "well_formed x \<Longrightarrow> well_formed y \<Longrightarrow> tri x y"
proof (induction x arbitrary: y)
  case (Type i)
  then show ?case using tri_differ[of "Type i" y] tri_base[of "Type i" y] by auto
next
  case (ReferenceType n)
  then show ?case
    using tri_differ[of "ReferenceType n" y] tri_base[of "ReferenceType n" y] by auto
next
  case (ArrayType t l)
  show ?case
  proof (cases "identifier y = ID_ARRAY")
    case True
    then obtain t' l' where y: "y = ArrayType t' l'"
      using well_formed_array ArrayType.prems by blast
    have wt: "well_formed t" "well_formed t'" using ArrayType.prems y by auto
    have IH: "tri t t'" using ArrayType.IH wt by blast
    have sym: "equal_up_to_reference_name t t' = equal_up_to_reference_name t' t"
      using wt by (rule equal_sym)
    show ?thesis using IH sym unfolding y tri_def exactly_one_def
      by (cases "l < l'"; cases "l' < l"; auto)
  next
    case False
    then show ?thesis using tri_differ[of "ArrayType t l" y] by simp
  qed
next
  case (PointerType t)
  show ?case
  proof (cases "identifier y = ID_POINTER")
    case True
    then obtain t' where y: "y = PointerType t'"
      using well_formed_pointer PointerType.prems by blast
    have "tri t t'" using PointerType.IH PointerType.prems y by auto
    then show ?thesis unfolding y tri_def exactly_one_def by simp
  next
    case False
    then show ?thesis using tri_differ[of "PointerType t" y] by simp
  qed
next
  case (OpaqueType n)
  show ?case
  proof (cases "identifier y = ID_OPAQUE")
    case True
    then obtain n' where y: "y = OpaqueType n'"
      using well_formed_opaque OpaqueType.prems by blast
    show ?thesis unfolding y tri_def exactly_one_def
      by (cases "n < n'"; cases "n' < n"; auto)
  next
    case False
    then show ?thesis using tri_differ[of "OpaqueType n" y] by simp
  qed
qed

lemma ordered_before_not_equal:
  "well_formed x \<Longrightarrow> well_formed y \<Longrightarrow> ordered_before x y \<Longrightarrow>
   \<not> equal_up_to_reference_name x y"
  using trichotomy[of x y] unfolding tri_def exactly_one_def by auto

lemma ordered_before_trans_mixed:
  assumes "ordered_before x y" "ordered_before y z"
    "identifier x \<noteq> identifier y \<or> identifier y \<noteq> identifier z"
  shows "ordered_before x z"
proof -
  have le1: "ordinal (identifier x) \<le> ordinal (identifier y)"
    and le2: "ordinal (identifier y) \<le> ordinal (identifier z)"
    using assms(1,2) ordered_before_le by blast+
  have "ordinal (identifier x) \<noteq> ordinal (identifier y)
        \<or> ordinal (identifier y) \<noteq> ordinal (identifier z)"
    using assms(3) by (simp add: ordinal_inj)
  then have lt: "ordinal (identifier x) < ordinal (identifier z)"
    using le1 le2 by linarith
  then have "identifier x \<noteq> identifier z" by auto
  then show ?thesis using differ_identifier(1)[of x z] lt by simp
qed

lemma ordered_before_trans:
  "well_formed x \<Longrightarrow> well_formed y \<Longrightarrow> well_formed z \<Longrightarrow>
   ordered_before x y \<Longrightarrow> ordered_before y z \<Longrightarrow> ordered_before x z"
proof (induction x arbitrary: y z)
  case (Type i)
  show ?case
  proof (cases "identifier (Type i) = identifier y")
    case True
    then have "\<not> ordered_before (Type i) y"
      using same_identifier_base(1)[of "Type i" y] Type.prems by auto
    then show ?thesis using Type.prems by simp
  next
    case False
    then show ?thesis using ordered_before_trans_mixed Type.prems by blast
  qed
next
  case (ReferenceType n)
  show ?case
  proof (cases "identifier (ReferenceType n) = identifier y")
    case True
    then have "\<not> ordered_before (ReferenceType n) y"
      using same_identifier_base(1)[of "ReferenceType n" y] ReferenceType.prems by auto
    then show ?thesis using ReferenceType.prems by simp
  next
    case False
    then show ?thesis using ordered_before_trans_mixed ReferenceType.prems by blast
  qed
next
  case (ArrayType t1 l1)
  show ?case
  proof (cases "identifier y = ID_ARRAY \<and> identifier z = ID_ARRAY")
    case True
    obtain t2 l2 where y: "y = ArrayType t2 l2"
      using well_formed_array ArrayType.prems(2) True by blast
    obtain t3 l3 where z: "z = ArrayType t3 l3"
      using well_formed_array ArrayType.prems(3) True by blast
    have wt: "well_formed t1" "well_formed t2" "well_formed t3"
      using ArrayType.prems y z by auto
    have xy: "if equal_up_to_reference_name t1 t2 then l1 < l2 else ordered_before t1 t2"
      using ArrayType.prems(4) y by simp
    have yz: "if equal_up_to_reference_name t2 t3 then l2 < l3 else ordered_before t2 t3"
      using ArrayType.prems(5) y z by simp
    have goal: "if equal_up_to_reference_name t1 t3 then l1 < l3 else ordered_before t1 t3"
    proof (cases "equal_up_to_reference_name t1 t2")
      case m12: True
      show ?thesis
      proof (cases "equal_up_to_reference_name t2 t3")
        case m23: True
        have "equal_up_to_reference_name t1 t3" using equal_trans[OF wt m12 m23] .
        moreover have "l1 < l3" using xy yz m12 m23 by auto
        ultimately show ?thesis by simp
      next
        case n23: False
        have p: "ordered_before t2 t3" using yz n23 by simp
        have "ordered_before t1 t3 = ordered_before t2 t3"
          using ordered_before_cong[of t1 t2 t3 t3] wt m12 by (simp add: equal_refl)
        then have p13: "ordered_before t1 t3" using p by simp
        then have "\<not> equal_up_to_reference_name t1 t3"
          using ordered_before_not_equal wt by blast
        then show ?thesis using p13 by simp
      qed
    next
      case n12: False
      have p12: "ordered_before t1 t2" using xy n12 by simp
      show ?thesis
      proof (cases "equal_up_to_reference_name t2 t3")
        case m23: True
        have "equal_up_to_reference_name t3 t2" using m23 equal_sym[of t2 t3] wt by simp
        then have "ordered_before t1 t3 = ordered_before t1 t2"
          using ordered_before_cong[of t1 t1 t3 t2] wt by (simp add: equal_refl)
        then have p13: "ordered_before t1 t3" using p12 by simp
        then have "\<not> equal_up_to_reference_name t1 t3"
          using ordered_before_not_equal wt by blast
        then show ?thesis using p13 by simp
      next
        case n23: False
        have p23: "ordered_before t2 t3" using yz n23 by simp
        have p13: "ordered_before t1 t3" using ArrayType.IH[OF wt p12 p23] .
        then have "\<not> equal_up_to_reference_name t1 t3"
          using ordered_before_not_equal wt by blast
        then show ?thesis using p13 by simp
      qed
    qed
    show ?thesis unfolding z using goal by simp
  next
    case False
    then have "identifier (ArrayType t1 l1) \<noteq> identifier y \<or> identifier y \<noteq> identifier z"
      by auto
    then show ?thesis using ordered_before_trans_mixed ArrayType.prems(4,5) by blast
  qed
next
  case (PointerType t1)
  show ?case
  proof (cases "identifier y = ID_POINTER \<and> identifier z = ID_POINTER")
    case True
    obtain t2 where y: "y = PointerType t2"
      using well_formed_pointer PointerType.prems(2) True by blast
    obtain t3 where z: "z = PointerType t3"
      using well_formed_pointer PointerType.prems(3) True by blast
    have wt: "well_formed t1" "well_formed t2" "well_formed t3"
      using PointerType.prems y z by auto
    have "ordered_before t1 t2" "ordered_before t2 t3"
      using PointerType.prems(4,5) y z by auto
    then have "ordered_before t1 t3" using PointerType.IH[OF wt] by blast
    then show ?thesis unfolding z by simp
  next
    case False
    then have "identifier (PointerType t1) \<noteq> identifier y \<or> identifier y \<noteq> identifier z"
      by auto
    then show ?thesis using ordered_before_trans_mixed PointerType.prems(4,5) by blast
  qed
next
  case (OpaqueType n1)
  show ?case
  proof (cases "identifier y = ID_OPAQUE \<and> identifier z = ID_OPAQUE")
    case True
    obtain n2 where y: "y = OpaqueType n2"
      using well_formed_opaque OpaqueType.prems(2) True by blast
    obtain n3 where z: "z = OpaqueType n3"
      using well_formed_opaque OpaqueType.prems(3) True by blast
    have "n1 < n2" "n2 < n3" using OpaqueType.prems(4,5) y z by auto
    then have "n1 < n3" by (rule less_trans)
    then show ?thesis unfolding z by simp
  next
    case False
    then have "identifier (OpaqueType n1) \<noteq> identifier y \<or> identifier y \<noteq> identifier z"
      by auto
    then show ?thesis using ordered_before_trans_mixed OpaqueType.prems(4,5) by blast
  qed
qed

section \<open>Claims about the type system\<close>

text \<open>
  C3, as stated: \<open>x.equal_to(y)\<close> is true exactly when \<open>x\<close> and \<open>y\<close> have the same
  identifier and the same parameters, among them the name of the referred entity of a
  reference type. It fails: \<open>ReferenceType\<close> does not override \<open>equal_to\<close>, so two
  reference types with different names compare equal.
\<close>

theorem equal_to_ignores_reference_name:
  "equal_to (ReferenceType ''a'') (ReferenceType ''b'') = Inr True
   \<and> \<not> equal_as_specified (ReferenceType ''a'') (ReferenceType ''b'')
   \<and> well_formed (ReferenceType ''a'') \<and> well_formed (ReferenceType ''b'')"
  by simp

text \<open>
  C3, amended: for well-formed type objects \<open>x.equal_to(y)\<close> returns true exactly when
  \<open>x\<close> and \<open>y\<close> have the same identifier and the same parameters, which are the
  element type and the length of an array type, the pointee of a pointer type and the name
  of an opaque type; reference types are compared by identifier alone. In other words,
  exactly when the two types are identical once the names of reference types are forgotten.
\<close>

theorem equal_to_same_identifier_and_parameters:
  "well_formed x \<Longrightarrow> well_formed y \<Longrightarrow>
   equal_to x y = Inr (equal_up_to_reference_name x y)
   \<and> (equal_up_to_reference_name x y
        \<longleftrightarrow> forget_reference_names x = forget_reference_names y)"
  using equal_to_well_formed equal_iff_erase by blast

theorem equal_to_same_identifier_and_parameters_witness:
  "well_formed (ArrayType (PointerType (ReferenceType ''x'')) 4)
   \<and> well_formed (ArrayType (PointerType (ReferenceType ''y'')) 4)
   \<and> equal_to (ArrayType (PointerType (ReferenceType ''x'')) 4)
        (ArrayType (PointerType (ReferenceType ''y'')) 4) = Inr True
   \<and> equal_to (ArrayType (PointerType (ReferenceType ''x'')) 4)
        (ArrayType (PointerType (ReferenceType ''x'')) 5) = Inr False"
  using equal_to_same_identifier_and_parameters
          [of "ArrayType (PointerType (ReferenceType ''x'')) 4"
              "ArrayType (PointerType (ReferenceType ''y'')) 4"]
        equal_to_same_identifier_and_parameters
          [of "ArrayType (PointerType (ReferenceType ''x'')) 4"
              "ArrayType (PointerType (ReferenceType ''x'')) 5"]
  by simp

text \<open>
  C5, as stated: for every pair of types exactly one of \<open>x.less_than(y)\<close>,
  \<open>y.less_than(x)\<close> and \<open>x.equal_to(y)\<close> holds. It fails for a base-class object
  that carries the identifier of a derived type, which the public constructor
  \<open>Type(Identifier)\<close> builds. As the receiver such an object compares by identifier;
  as the argument of an array type it has the same identifier, is cast to \<open>ArrayType\<close>
  and read where it has no member, so neither \<open>x.less_than(y)\<close> nor
  \<open>x.equal_to(y)\<close> returns a boolean, while \<open>y.equal_to(x)\<close> is true.
\<close>

theorem less_than_undefined_on_base_class_array:
  "less_than (ArrayType (Type ID_VOID) 1) (Type ID_ARRAY) = Inl BadCast
   \<and> less_than (Type ID_ARRAY) (ArrayType (Type ID_VOID) 1) = Inr False
   \<and> equal_to (ArrayType (Type ID_VOID) 1) (Type ID_ARRAY) = Inl BadCast
   \<and> equal_to (Type ID_ARRAY) (ArrayType (Type ID_VOID) 1) = Inr True
   \<and> \<not> exactly_one
         (less_than (ArrayType (Type ID_VOID) 1) (Type ID_ARRAY) = Inr True)
         (less_than (Type ID_ARRAY) (ArrayType (Type ID_VOID) 1) = Inr True)
         (equal_to (ArrayType (Type ID_VOID) 1) (Type ID_ARRAY) = Inr True)"
  by (simp add: exactly_one_def)

text \<open>
  C5, amended: on well-formed type objects (an array, pointer or opaque identifier is
  carried by an object of \<open>ArrayType\<close>, \<open>PointerType\<close> or \<open>OpaqueType\<close>, at
  every level of nesting) \<open>less_than\<close> is a strict total order, first by the ordinal
  of the identifier and then by structure, and consistent with \<open>equal_to\<close>: exactly one
  of \<open>x.less_than(y)\<close>, \<open>y.less_than(x)\<close> and \<open>x.equal_to(y)\<close> holds. The theorem
  gives, for all well-formed \<open>x\<close>, \<open>y\<close>, \<open>z\<close>: both functions return a boolean,
  \<open>less_than\<close> is the order by identifier and then structure, the three-way
  alternative, irreflexivity, transitivity, and that a smaller identifier decides.
\<close>

theorem less_than_strict_total_order:
  assumes "well_formed x" and "well_formed y" and "well_formed z"
  shows "less_than x y = Inr (ordered_before x y)
    \<and> (\<exists>b. equal_to x y = Inr b)
    \<and> exactly_one (less_than x y = Inr True) (less_than y x = Inr True)
         (equal_to x y = Inr True)
    \<and> less_than x x = Inr False
    \<and> (less_than x y = Inr True \<and> less_than y z = Inr True \<longrightarrow> less_than x z = Inr True)
    \<and> (ordinal (identifier x) < ordinal (identifier y) \<longrightarrow> less_than x y = Inr True)"
proof -
  have lt: "less_than x y = Inr (ordered_before x y)"
    "less_than y x = Inr (ordered_before y x)"
    "less_than y z = Inr (ordered_before y z)"
    "less_than x z = Inr (ordered_before x z)"
    "less_than x x = Inr (ordered_before x x)"
    using assms by (simp_all add: less_than_well_formed)
  have eq: "equal_to x y = Inr (equal_up_to_reference_name x y)"
    using assms by (simp add: equal_to_well_formed)
  have three: "exactly_one (less_than x y = Inr True) (less_than y x = Inr True)
         (equal_to x y = Inr True)"
    using trichotomy[OF assms(1,2)] unfolding tri_def lt eq by simp
  have irrefl: "less_than x x = Inr False"
    unfolding lt by (simp add: ordered_before_irrefl)
  have trans: "less_than x y = Inr True \<and> less_than y z = Inr True
      \<longrightarrow> less_than x z = Inr True"
    unfolding lt using ordered_before_trans[OF assms] by simp
  have first: "ordinal (identifier x) < ordinal (identifier y) \<longrightarrow> less_than x y = Inr True"
  proof
    assume h: "ordinal (identifier x) < ordinal (identifier y)"
    then have "identifier x \<noteq> identifier y" by auto
    then show "less_than x y = Inr True"
      unfolding lt using differ_identifier(1)[of x y] h by simp
  qed
  show ?thesis using lt(1) eq three irrefl trans first by blast
qed

theorem less_than_strict_total_order_witness:
  "well_formed (Type ID_BOOLEAN)
   \<and> well_formed (ArrayType (ReferenceType ''k'') 2)
   \<and> well_formed (ArrayType (Type ID_REFERENCE) 3)
   \<and> less_than (Type ID_BOOLEAN) (ArrayType (ReferenceType ''k'') 2) = Inr True
   \<and> less_than (ArrayType (ReferenceType ''k'') 2) (ArrayType (Type ID_REFERENCE) 3) = Inr True
   \<and> less_than (Type ID_BOOLEAN) (ArrayType (Type ID_REFERENCE) 3) = Inr True
   \<and> less_than (ArrayType (ReferenceType ''k'') 2) (Type ID_BOOLEAN) = Inr False
   \<and> equal_to (Type ID_BOOLEAN) (ArrayType (ReferenceType ''k'') 2) = Inr False
   \<and> ordinal (identifier (Type ID_BOOLEAN))
       < ordinal (identifier (ArrayType (ReferenceType ''k'') 2))"
  using less_than_strict_total_order
          [of "Type ID_BOOLEAN" "ArrayType (ReferenceType ''k'') 2"
              "ArrayType (Type ID_REFERENCE) 3"]
  by (simp add: exactly_one_def)

text \<open>
  C9, as stated: \<open>as_string()\<close> returns a string without failing an assertion for every
  \<open>Type\<close> object of every variant. It fails for a base-class object that carries the
  identifier of a derived type, which the public constructor \<open>Type(Identifier)\<close>
  builds: the body of \<open>Type::as_string\<close> reaches \<open>assert(false)\<close>.
\<close>

theorem as_string_base_array_asserts:
  "as_string (Type ID_ARRAY) = Inl AssertionFailed
   \<and> as_string (PointerType (Type ID_OPAQUE)) = Inl AssertionFailed"
  by simp

text \<open>
  C9, amended: \<open>as_string()\<close> returns a string without failing an assertion for every
  type object in which an array, pointer or opaque identifier is carried by an object of
  \<open>ArrayType\<close>, \<open>PointerType\<close> or \<open>OpaqueType\<close>, at every level of nesting.
\<close>

theorem as_string_well_formed:
  "well_formed t \<Longrightarrow> \<exists>s. as_string t = Inr s"
proof (induction t)
  case (Type i)
  then show ?case by (cases i) simp_all
next
  case (ArrayType t l)
  then obtain s where "as_string t = Inr s" by auto
  then show ?case by simp
next
  case (PointerType t)
  then obtain s where "as_string t = Inr s" by auto
  then show ?case by simp
qed simp_all

theorem as_string_well_formed_witness:
  "well_formed (ArrayType (PointerType (Type ID_VALUE)) 12)
   \<and> (\<exists>s. as_string (ArrayType (PointerType (Type ID_VALUE)) 12) = Inr s)"
  using as_string_well_formed [of "ArrayType (PointerType (Type ID_VALUE)) 12"]
  by simp

text \<open>
  C10, as stated: for every operand whose type satisfies the precondition of the
  constructor, \<open>type()\<close> is well-defined and returns the element type or the pointee
  type. The precondition is \<open>is_array() || is_pointer()\<close>, which looks at the
  identifier only: a base-class object with the identifier of arrays satisfies it, and
  there \<open>type()\<close> reads a member the object does not have. The object has no element
  type to return.
\<close>

theorem ArrayElementConstant_type_of_base_class_array:
  "type (NullConstant (Type ID_ARRAY)) = Inr (Type ID_ARRAY)
   \<and> is_array (Type ID_ARRAY)
   \<and> new_ArrayElementConstant (NullConstant (Type ID_ARRAY)) 0
       = Inr (ArrayElementConstant (NullConstant (Type ID_ARRAY)) 0)
   \<and> type (ArrayElementConstant (NullConstant (Type ID_ARRAY)) 0) = Inl BadCast"
  by (simp add: new_ArrayElementConstant_def is_array_def)

text \<open>
  C10, amended: for every \<open>ArrayElementConstant\<close> constructed from an operand whose
  type is an object of \<open>ArrayType\<close> or of \<open>PointerType\<close>, the constructor's
  assertion holds and \<open>type()\<close> returns the element type, respectively the pointee
  type, of the operand's type. The pointer case goes through the cast to
  \<open>ArrayType\<close> and relies on \<open>PointerType\<close> keeping its \<open>type_\<close> where
  \<open>ArrayType\<close> keeps its own.
\<close>

theorem ArrayElementConstant_type_element_or_pointee:
  assumes "type array = Inr ty" and "ty = ArrayType t l \<or> ty = PointerType t"
  shows "new_ArrayElementConstant array index = Inr (ArrayElementConstant array index)
    \<and> type (ArrayElementConstant array index) = Inr t"
  using assms by (auto simp: new_ArrayElementConstant_def is_array_def is_pointer_def)

text \<open>
  An element of an array of three values has the value type; an element behind a pointer
  to double has the double type.
\<close>

theorem ArrayElementConstant_type_element_or_pointee_witness:
  "type (NullConstant (ArrayType (Type ID_VALUE) 3)) = Inr (ArrayType (Type ID_VALUE) 3)
   \<and> new_ArrayElementConstant (NullConstant (ArrayType (Type ID_VALUE) 3)) 0
       = Inr (ArrayElementConstant (NullConstant (ArrayType (Type ID_VALUE) 3)) 0)
   \<and> type (ArrayElementConstant (NullConstant (ArrayType (Type ID_VALUE) 3)) 0)
       = Inr (Type ID_VALUE)
   \<and> type (NullConstant (PointerType (Type ID_DOUBLE))) = Inr (PointerType (Type ID_DOUBLE))
   \<and> new_ArrayElementConstant (NullConstant (PointerType (Type ID_DOUBLE))) 7
       = Inr (ArrayElementConstant (NullConstant (PointerType (Type ID_DOUBLE))) 7)
   \<and> type (ArrayElementConstant (NullConstant (PointerType (Type ID_DOUBLE))) 7)
       = Inr (Type ID_DOUBLE)"
  using ArrayElementConstant_type_element_or_pointee
          [of "NullConstant (ArrayType (Type ID_VALUE) 3)" "ArrayType (Type ID_VALUE) 3"
              "Type ID_VALUE" 3 0]
        ArrayElementConstant_type_element_or_pointee
          [of "NullConstant (PointerType (Type ID_DOUBLE))" "PointerType (Type ID_DOUBLE)"
              "Type ID_DOUBLE" 0 7]
  by simp

section \<open>Claims about the runtime errors\<close>

lemma create_inst_class: "dynamic_class (create_inst T m) = T"
  by (cases T)
     (simp_all add: EsError_message_def EsError_name_message_def EsNativeError_def
        new_EsEvalError_def new_EsRangeError_def new_EsReferenceError_def
        new_EsSyntaxError_def new_EsTypeError_def new_EsUriError_def)

lemma create_inst_message: "message (create_inst T m) = m"
  by (cases T)
     (simp_all add: EsError_message_def EsError_name_message_def
        EsNativeError_def new_EsEvalError_def new_EsRangeError_def
        new_EsReferenceError_def new_EsSyntaxError_def new_EsTypeError_def
        new_EsUriError_def)

text \<open>
  C4: for every error type \<open>T\<close> and message \<open>m\<close>, \<open>es_throw<T>(m)\<close> constructs an
  instance of \<open>T\<close> from \<open>m\<close>, sets it as the pending exception of the topmost context
  of the context stack and returns normally. The stack must hold a context; the contexts
  below the topmost one are left as they were.
\<close>

theorem es_throw_sets_pending_exception:
  assumes "stack \<noteq> []"
  shows "\<exists>e. es_throw T m stack
             = Inr ((hd stack)\<lparr>pending_exception := Some (from_obj e)\<rparr> # tl stack)
           \<and> e = create_inst T m \<and> dynamic_class e = T \<and> message e = m"
proof -
  obtain ctx rest where s: "stack = ctx # rest"
    using assms by (cases stack) auto
  show ?thesis
    unfolding s
    by (simp add: es_throw_def set_pending_exception_def create_inst_class
          create_inst_message)
qed

theorem es_throw_sets_pending_exception_witness:
  "[\<lparr>pending_exception = None\<rparr>, \<lparr>pending_exception = None\<rparr>] \<noteq> []
   \<and> es_throw EsTypeError ''not a function''
        [\<lparr>pending_exception = None\<rparr>, \<lparr>pending_exception = None\<rparr>]
     = Inr [\<lparr>pending_exception = Some (from_obj
               \<lparr>dynamic_class = EsTypeError, name = ''TypeError'',
                message = ''not a function''\<rparr>)\<rparr>,
            \<lparr>pending_exception = None\<rparr>]"
  using es_throw_sets_pending_exception
          [of "[\<lparr>pending_exception = None\<rparr>, \<lparr>pending_exception = None\<rparr>]"
              EsTypeError "''not a function''"]
  by (simp add: new_EsTypeError_def EsNativeError_def EsError_name_message_def ESTR_def)

text \<open>The debug form does the same with the formatted message.\<close>

lemma es_throw_DEBUG_sets_pending_exception:
  "es_throw_DEBUG T file line m (ctx # rest)
     = Inr (ctx\<lparr>pending_exception :=
              Some (from_obj (create_inst T (sprintf_file_line file line m)))\<rparr> # rest)"
  by (simp add: es_throw_DEBUG_def es_throw_def set_pending_exception_def)

text \<open>
  C8: the error hierarchy has exactly seven classes, the generic \<open>EsError\<close> and the six
  native errors, each constructible from a message value; a native error constructed from
  the message \<open>m\<close> has the canonical name of its class as \<open>name()\<close> and \<open>m\<close> as
  \<open>message()\<close>.
\<close>

theorem native_error_name_and_message:
  "distinct error_classes \<and> length error_classes = 7 \<and> set error_classes = UNIV
   \<and> dynamic_class (create_inst T m) = T \<and> message (create_inst T m) = m
   \<and> name (new_EsEvalError m) = ''EvalError'' \<and> message (new_EsEvalError m) = m
   \<and> name (new_EsRangeError m) = ''RangeError'' \<and> message (new_EsRangeError m) = m
   \<and> name (new_EsReferenceError m) = ''ReferenceError''
   \<and> message (new_EsReferenceError m) = m
   \<and> name (new_EsSyntaxError m) = ''SyntaxError'' \<and> message (new_EsSyntaxError m) = m
   \<and> name (new_EsTypeError m) = ''TypeError'' \<and> message (new_EsTypeError m) = m
   \<and> name (new_EsUriError m) = ''URIError'' \<and> message (new_EsUriError m) = m"
proof -
  have u: "set error_classes = UNIV"
  proof -
    have "c \<in> set error_classes" for c
      by (cases c) (simp_all add: error_classes_def)
    then show ?thesis by auto
  qed
  have d: "distinct error_classes \<and> length error_classes = 7"
    by (simp add: error_classes_def)
  show ?thesis
    using u d create_inst_class[of T m] create_inst_message[of T m]
    by (simp add: ESTR_def EsNativeError_def
          EsError_name_message_def new_EsEvalError_def new_EsRangeError_def
          new_EsReferenceError_def new_EsSyntaxError_def new_EsTypeError_def
          new_EsUriError_def)
qed

section \<open>Claims about the instructions\<close>

text \<open>
  C7: \<open>is_terminating()\<close> returns true exactly for the branch, jump and return
  instructions, the three classes derived from \<open>TerminateInstruction\<close>; every other
  instruction variant reports false.
\<close>

theorem is_terminating_iff_branch_jump_return:
  "is_terminating i \<longleftrightarrow>
     (\<exists>host cond true_block false_block. i = BranchInstruction host cond true_block false_block)
   \<or> (\<exists>host block. i = JumpInstruction host block)
   \<or> (\<exists>host val. i = ReturnInstruction host val)"
  by (cases i) (simp_all add: is_terminating_def)

lemma is_terminating_instruction_of:
  "is_terminating (instruction_of this c) = is_terminator_factory c"
  by (cases c) (simp_all add: instruction_of_def is_terminating_def)

section \<open>The builder preserves its invariants\<close>

lemma add_referrers_Inr:
  "add_referrers a ts s = Inr s' \<Longrightarrow>
     set ts \<subseteq> dom (block_at s)
     \<and> instruction_at s' = instruction_at s \<and> function_at s' = function_at s
     \<and> next_free s' = next_free s
     \<and> (\<forall>x. block_at s' x =
           map_option (\<lambda>B. B\<lparr>Block_referrers :=
                               (if x \<in> set ts then insert a (Block_referrers B)
                                else Block_referrers B)\<rparr>) (block_at s x))"
proof (induction ts arbitrary: s)
  case Nil
  then show ?case by (auto simp: option.map_ident)
next
  case (Cons t ts)
  from Cons.prems obtain B where B: "block_at s t = Some B"
    by (auto simp: add_referrer_def split: option.splits)
  define s1 where "s1 = s\<lparr>block_at := (block_at s)
                    (t \<mapsto> B\<lparr>Block_referrers := insert a (Block_referrers B)\<rparr>)\<rparr>"
  have ar: "add_referrer t a s = Inr s1"
    by (simp add: add_referrer_def B s1_def)
  then have rest: "add_referrers a ts s1 = Inr s'" using Cons.prems by simp
  note IH = Cons.IH[OF rest]
  have dom1: "dom (block_at s1) = dom (block_at s)"
    using B by (auto simp: s1_def)
  have "\<forall>x. block_at s' x =
           map_option (\<lambda>B. B\<lparr>Block_referrers :=
                               (if x \<in> set (t # ts) then insert a (Block_referrers B)
                                else Block_referrers B)\<rparr>) (block_at s x)"
  proof
    fix x
    show "block_at s' x =
           map_option (\<lambda>B. B\<lparr>Block_referrers :=
                               (if x \<in> set (t # ts) then insert a (Block_referrers B)
                                else Block_referrers B)\<rparr>) (block_at s x)"
      using IH B by (cases "x = t") (auto simp: s1_def)
  qed
  moreover have "set (t # ts) \<subseteq> dom (block_at s)" using IH dom1 B by auto
  moreover have "instruction_at s' = instruction_at s" "function_at s' = function_at s"
    "next_free s' = next_free s" using IH by (simp_all add: s1_def)
  ultimately show ?case by blast
qed

lemma call_Inr:
  assumes "call this c s = Inr (a, s')"
  shows "a = next_free s" and "next_free s' = Suc (next_free s)"
    and "function_at s' = function_at s"
    and "instruction_at s' = (instruction_at s)(a \<mapsto> instruction_of this c)"
    and "\<exists>B. block_at s this = Some B \<and> \<not> terminated s B"
    and "set (targets (instruction_of this c)) \<subseteq> dom (block_at s)"
    and "\<And>x. block_at s' x =
           map_option (\<lambda>B. B\<lparr>Block_referrers :=
                               (if x \<in> set (targets (instruction_of this c))
                                then insert a (Block_referrers B) else Block_referrers B),
                             Block_instructions :=
                               (if x = this then Block_instructions B @ [a]
                                else Block_instructions B)\<rparr>) (block_at s x)"
proof -
  from assms obtain B where B: "block_at s this = Some B" and nt: "\<not> terminated s B"
    by (auto simp: call_def split: option.splits if_splits)
  define i where "i = instruction_of this c"
  define s1 where "s1 = s\<lparr>instruction_at := (instruction_at s)(next_free s \<mapsto> i),
                       next_free := Suc (next_free s)\<rparr>"
  from assms B nt obtain s2 where
    s2: "add_referrers (next_free s) (targets i) s1 = Inr s2"
    and s3: "push_instr this (next_free s) s2 = Inr s'" and a: "a = next_free s"
    by (auto simp: call_def Let_def i_def s1_def split: sum.splits)
  note R = add_referrers_Inr[OF s2]
  show "a = next_free s" by (rule a)
  from s3 obtain B2 where B2: "block_at s2 this = Some B2"
    and s': "s' = s2\<lparr>block_at := (block_at s2)
                    (this \<mapsto> B2\<lparr>Block_instructions := Block_instructions B2 @ [next_free s]\<rparr>)\<rparr>"
    by (auto simp: push_instr_def split: option.splits)
  show "next_free s' = Suc (next_free s)" using R s' by (simp add: s1_def)
  show "function_at s' = function_at s" using R s' by (simp add: s1_def)
  show "instruction_at s' = (instruction_at s)(a \<mapsto> instruction_of this c)"
    using R s' a by (simp add: s1_def i_def)
  show "\<exists>B. block_at s this = Some B \<and> \<not> terminated s B" using B nt by blast
  show "set (targets (instruction_of this c)) \<subseteq> dom (block_at s)"
    using R by (simp add: s1_def i_def)
  fix x
  show "block_at s' x =
           map_option (\<lambda>B. B\<lparr>Block_referrers :=
                               (if x \<in> set (targets (instruction_of this c))
                                then insert a (Block_referrers B) else Block_referrers B),
                             Block_instructions :=
                               (if x = this then Block_instructions B @ [a]
                                else Block_instructions B)\<rparr>) (block_at s x)"
  proof (cases "x = this")
    case True
    have "block_at s2 this = map_option (\<lambda>B. B\<lparr>Block_referrers :=
                               (if this \<in> set (targets i) then insert (next_free s) (Block_referrers B)
                                else Block_referrers B)\<rparr>) (block_at s1 this)"
      using R by blast
    then show ?thesis using True B B2 s' a by (auto simp: s1_def i_def)
  next
    case False
    have "block_at s2 x = map_option (\<lambda>B. B\<lparr>Block_referrers :=
                               (if x \<in> set (targets i) then insert (next_free s) (Block_referrers B)
                                else Block_referrers B)\<rparr>) (block_at s1 x)"
      using R by blast
    then show ?thesis using False s' a
      by (cases "block_at s x") (auto simp: s1_def i_def)
  qed
qed

lemma terminator_at_old:
  assumes "instruction_at s' = (instruction_at s)(a \<mapsto> i)" "y \<noteq> a"
  shows "terminator_at s' y = terminator_at s y"
  using assms by (simp add: terminator_at_def)

lemma call_allocated:
  assumes inv: "addresses_allocated s" and c: "call this c s = Inr (a, s')"
  shows "addresses_allocated s'"
proof -
  note C = call_Inr[OF c]
  show ?thesis
    unfolding addresses_allocated_def
  proof (intro conjI allI impI)
    fix x B' assume h: "block_at s' x = Some B'"
    then obtain B where B: "block_at s x = Some B"
      and B': "B' = B\<lparr>Block_referrers :=
                               (if x \<in> set (targets (instruction_of this c))
                                then insert a (Block_referrers B) else Block_referrers B),
                             Block_instructions :=
                               (if x = this then Block_instructions B @ [a]
                                else Block_instructions B)\<rparr>"
      using C(7)[of x] by (cases "block_at s x") auto
    show "x < next_free s'" using inv B C(2) unfolding addresses_allocated_def
      by (metis less_Suc_eq)
    fix y assume "y \<in> set (Block_instructions B')"
    then have "y = a \<or> y \<in> set (Block_instructions B)"
      using B' by (auto split: if_splits)
    then show "y < next_free s'"
      using inv B C(1,2) unfolding addresses_allocated_def by (metis less_Suc_eq lessI)
  next
    fix y i assume "instruction_at s' y = Some i"
    then have "y = a \<or> instruction_at s y = Some i"
      using C(4) by (auto split: if_splits)
    then show "y < next_free s'"
      using inv C(1,2) unfolding addresses_allocated_def by (metis less_Suc_eq lessI)
  qed
qed

lemma call_terminators_last:
  assumes inv: "addresses_allocated s"
    and tl: "\<forall>b B. block_at s b = Some B \<longrightarrow> terminators_last s B"
    and c: "call this c s = Inr (a, s')"
    and h: "block_at s' x = Some B'"
  shows "terminators_last s' B'"
proof -
  note C = call_Inr[OF c]
  obtain B where B: "block_at s x = Some B"
    and B': "Block_instructions B' =
               (if x = this then Block_instructions B @ [a] else Block_instructions B)"
    using C(7)[of x] h by (cases "block_at s x") auto
  have old: "\<And>y. y \<in> set (Block_instructions B) \<Longrightarrow> terminator_at s' y = terminator_at s y"
  proof -
    fix y assume "y \<in> set (Block_instructions B)"
    then have "y < next_free s" using inv B unfolding addresses_allocated_def by blast
    then have "y \<noteq> a" using C(1) by simp
    then show "terminator_at s' y = terminator_at s y"
      using terminator_at_old[OF C(4)] by simp
  qed
  have tlB: "terminators_last s B" using tl B by blast
  show ?thesis
  proof (cases "x = this")
    case False
    then have "Block_instructions B' = Block_instructions B" using B' by simp
    then show ?thesis using tlB old unfolding terminators_last_def by simp
  next
    case True
    then have l: "Block_instructions B' = Block_instructions B @ [a]" using B' by simp
    from C(5) B True have nt: "\<not> terminated s B" by auto
    show ?thesis
      unfolding terminators_last_def l
    proof (intro allI impI)
      fix k assume "Suc k < length (Block_instructions B @ [a])"
      then have k: "k < length (Block_instructions B)" by simp
      then have nth: "(Block_instructions B @ [a]) ! k = Block_instructions B ! k"
        by (simp add: nth_append)
      have mem: "Block_instructions B ! k \<in> set (Block_instructions B)" using k by simp
      have "\<not> terminator_at s (Block_instructions B ! k)"
      proof (cases "Suc k < length (Block_instructions B)")
        case True
        then show ?thesis using tlB unfolding terminators_last_def by blast
      next
        case False
        then have "Suc k = length (Block_instructions B)" using k by simp
        then have "Block_instructions B ! k = last (Block_instructions B)"
          using k by (metis diff_Suc_1 last_conv_nth length_0_conv less_nat_zero_code)
        then show ?thesis using nt k unfolding terminated_def by auto
      qed
      then show "\<not> terminator_at s' ((Block_instructions B @ [a]) ! k)"
        using nth old[OF mem] by simp
    qed
  qed
qed

lemma call_referrers_complete:
  assumes inv: "addresses_allocated s" and rc: "referrers_complete s"
    and c: "call this c s = Inr (a, s')"
  shows "referrers_complete s'"
proof -
  note C = call_Inr[OF c]
  show ?thesis
    unfolding referrers_complete_def
  proof (intro allI impI, elim conjE)
    fix b B' T i b'
    assume h: "block_at s' b = Some B'" and T: "T \<in> set (Block_instructions B')"
      and i: "instruction_at s' T = Some i" and trm: "is_terminating i"
      and b': "b' \<in> set (targets i)"
    obtain B where B: "block_at s b = Some B"
      and BI: "Block_instructions B' =
               (if b = this then Block_instructions B @ [a] else Block_instructions B)"
      using C(7)[of b] h by (cases "block_at s b") auto
    show "\<exists>B''. block_at s' b' = Some B'' \<and> T \<in> Block_referrers B''"
    proof (cases "T = a")
      case True
      then have "i = instruction_of this c" using i C(4) by simp
      then have in_ts: "b' \<in> set (targets (instruction_of this c))" using b' by simp
      then obtain Bt where "block_at s b' = Some Bt" using C(6) by auto
      then show ?thesis using C(7)[of b'] in_ts True by simp
    next
      case False
      then have "T \<in> set (Block_instructions B)" using T BI by (auto split: if_splits)
      moreover have "instruction_at s T = Some i" using i C(4) False by simp
      ultimately obtain Bt where Bt: "block_at s b' = Some Bt" "T \<in> Block_referrers Bt"
        using rc B trm b' unfolding referrers_complete_def by blast
      then show ?thesis using C(7)[of b'] by simp
    qed
  qed
qed

lemma call_referrers_sound:
  assumes inv: "addresses_allocated s" and rs: "referrers_sound s"
    and c: "call this c s = Inr (a, s')"
  shows "referrers_sound s'"
proof -
  note C = call_Inr[OF c]
  show ?thesis
    unfolding referrers_sound_def
  proof (intro allI impI, elim conjE)
    fix b' B' T
    assume h: "block_at s' b' = Some B'" and T: "T \<in> Block_referrers B'"
    obtain B where B: "block_at s b' = Some B"
      and BR: "Block_referrers B' =
               (if b' \<in> set (targets (instruction_of this c))
                then insert a (Block_referrers B) else Block_referrers B)"
      using C(7)[of b'] h by (cases "block_at s b'") auto
    show "\<exists>i. instruction_at s' T = Some i \<and> b' \<in> set (targets i)"
    proof (cases "T \<in> Block_referrers B")
      case True
      then obtain i where i: "instruction_at s T = Some i" "b' \<in> set (targets i)"
        using rs B unfolding referrers_sound_def by blast
      then have "T < next_free s" using inv unfolding addresses_allocated_def by blast
      then have "T \<noteq> a" using C(1) by simp
      then show ?thesis using i C(4) by simp
    next
      case False
      then have "T = a \<and> b' \<in> set (targets (instruction_of this c))"
        using T BR by (auto split: if_splits)
      then show ?thesis using C(4) by simp
    qed
  qed
qed

lemma call_invariant:
  assumes "builder_invariant s" and "call this c s = Inr (a, s')"
  shows "builder_invariant s'"
  using assms call_allocated[of s this c a s'] call_terminators_last[of s this c a s']
    call_referrers_complete[of s this c a s'] call_referrers_sound[of s this c a s']
    call_Inr(3)[of this c s a s']
  unfolding builder_invariant_def by auto

lemma terminator_at_cong:
  "instruction_at s' = instruction_at s \<Longrightarrow> terminator_at s' = terminator_at s"
  by (rule ext) (simp add: terminator_at_def)

lemma terminators_last_cong:
  "instruction_at s' = instruction_at s \<Longrightarrow> terminators_last s' B = terminators_last s B"
  using terminator_at_cong[of s' s] by (simp add: terminators_last_def)

lemma new_Block_invariant:
  assumes inv: "builder_invariant s"
  shows "builder_invariant (snd (new_Block l s))"
proof -
  define x0 where "x0 = next_free s"
  define s' where "s' = snd (new_Block l s)"
  have s': "s' = s\<lparr>block_at := (block_at s)
                   (x0 \<mapsto> \<lparr>Block_label = l, Block_instructions = [], Block_referrers = {}\<rparr>),
               next_free := Suc x0\<rparr>"
    by (simp add: s'_def new_Block_def Let_def x0_def)
  have al: "addresses_allocated s" and tl: "\<forall>b B. block_at s b = Some B \<longrightarrow> terminators_last s B"
    and rc: "referrers_complete s" and rs: "referrers_sound s"
    and fn: "\<forall>f F. function_at s f = Some F \<longrightarrow> Function_blocks F \<noteq> []"
    using inv unfolding builder_invariant_def by auto
  have fresh: "block_at s x0 = None"
    using al unfolding addresses_allocated_def x0_def by (cases "block_at s (next_free s)") auto
  have ia: "instruction_at s' = instruction_at s" by (simp add: s')
  have old: "\<And>x B. block_at s x = Some B \<Longrightarrow> block_at s' x = Some B"
    using fresh by (auto simp: s')
  have new: "\<And>x B. block_at s' x = Some B \<Longrightarrow>
      block_at s x = Some B \<or> (Block_instructions B = [] \<and> Block_referrers B = {})"
    by (auto simp: s' split: if_splits)
  have 1: "addresses_allocated s'"
    unfolding addresses_allocated_def
  proof (intro conjI allI impI)
    fix x B assume h: "block_at s' x = Some B"
    show "x < next_free s'"
      using h al unfolding addresses_allocated_def
      by (auto simp: s' x0_def less_Suc_eq split: if_splits)
    fix a assume "a \<in> set (Block_instructions B)"
    then show "a < next_free s'"
      using new[OF h] al unfolding addresses_allocated_def
      by (auto simp: s' x0_def less_Suc_eq)
  next
    fix a i assume "instruction_at s' a = Some i"
    then show "a < next_free s'"
      using al unfolding addresses_allocated_def by (auto simp: s' x0_def less_Suc_eq)
  qed
  have 2: "\<forall>b B. block_at s' b = Some B \<longrightarrow> terminators_last s' B"
  proof (intro allI impI)
    fix b B assume h: "block_at s' b = Some B"
    show "terminators_last s' B"
      using new[OF h] tl terminators_last_cong[OF ia]
      by (auto simp: terminators_last_def)
  qed
  have 3: "referrers_complete s'"
    unfolding referrers_complete_def
  proof (intro allI impI, elim conjE)
    fix b B T i b'
    assume h: "block_at s' b = Some B" and T: "T \<in> set (Block_instructions B)"
      and i: "instruction_at s' T = Some i" and trm: "is_terminating i"
      and b': "b' \<in> set (targets i)"
    have "block_at s b = Some B" using new[OF h] T by auto
    then obtain Bt where "block_at s b' = Some Bt" "T \<in> Block_referrers Bt"
      using rc T i trm b' ia unfolding referrers_complete_def by metis
    then show "\<exists>B'. block_at s' b' = Some B' \<and> T \<in> Block_referrers B'"
      using old by blast
  qed
  have 4: "referrers_sound s'"
    unfolding referrers_sound_def
  proof (intro allI impI, elim conjE)
    fix b' B' T
    assume h: "block_at s' b' = Some B'" and T: "T \<in> Block_referrers B'"
    have "block_at s b' = Some B'" using new[OF h] T by auto
    then show "\<exists>i. instruction_at s' T = Some i \<and> b' \<in> set (targets i)"
      using rs T ia unfolding referrers_sound_def by metis
  qed
  have 5: "\<forall>f F. function_at s' f = Some F \<longrightarrow> Function_blocks F \<noteq> []"
    using fn by (simp add: s')
  show ?thesis
    using 1 2 3 4 5 unfolding builder_invariant_def s'_def by blast
qed

lemma function_update_invariant:
  assumes inv: "builder_invariant s" and F: "Function_blocks F \<noteq> []"
    and n: "next_free s \<le> n"
  shows "builder_invariant (s\<lparr>function_at := (function_at s)(f \<mapsto> F), next_free := n\<rparr>)"
proof -
  define s' where "s' = s\<lparr>function_at := (function_at s)(f \<mapsto> F), next_free := n\<rparr>"
  have b: "block_at s' = block_at s" and i: "instruction_at s' = instruction_at s"
    and nf: "next_free s' = n" by (simp_all add: s'_def)
  have "addresses_allocated s'"
    using inv n unfolding builder_invariant_def addresses_allocated_def b i nf
    by (meson less_le_trans)
  moreover have "\<forall>b B. block_at s' b = Some B \<longrightarrow> terminators_last s' B"
    using inv terminators_last_cong[OF i] unfolding builder_invariant_def b by simp
  moreover have "referrers_complete s'" "referrers_sound s'"
    using inv unfolding builder_invariant_def referrers_complete_def referrers_sound_def b i
    by auto
  moreover have "\<forall>g G. function_at s' g = Some G \<longrightarrow> Function_blocks G \<noteq> []"
    using inv F unfolding builder_invariant_def by (simp add: s'_def)
  ultimately show ?thesis unfolding builder_invariant_def s'_def by blast
qed

lemma new_Function_invariant:
  assumes inv: "builder_invariant s"
  shows "builder_invariant (snd (new_Function n g s))"
proof -
  define s1 where "s1 = snd (new_Block [] s)"
  have i1: "builder_invariant s1" unfolding s1_def by (rule new_Block_invariant[OF inv])
  have "snd (new_Function n g s) =
     s1\<lparr>function_at := (function_at s1)
          (next_free s1 \<mapsto> \<lparr>Function_is_global = g, Function_name = n,
                             Function_blocks = [fst (new_Block [] s)]\<rparr>),
        next_free := Suc (next_free s1)\<rparr>"
    by (simp add: new_Function_def s1_def Let_def split_beta)
  then show ?thesis using function_update_invariant[OF i1] by simp
qed

lemma push_block_invariant:
  assumes inv: "builder_invariant s" and p: "push_block f b s = Inr s'"
  shows "builder_invariant s'"
proof -
  from p obtain F where F: "function_at s f = Some F"
    and s': "s' = s\<lparr>function_at := (function_at s)
                         (f \<mapsto> F\<lparr>Function_blocks := Function_blocks F @ [b]\<rparr>)\<rparr>"
    by (auto simp: push_block_def split: option.splits)
  have "s' = s\<lparr>function_at := (function_at s)
                         (f \<mapsto> F\<lparr>Function_blocks := Function_blocks F @ [b]\<rparr>),
               next_free := next_free s\<rparr>"
    by (simp add: s')
  then show ?thesis
    using function_update_invariant[OF inv, of "F\<lparr>Function_blocks := Function_blocks F @ [b]\<rparr>"
             "next_free s" f] by simp
qed

lemma empty_store_invariant: "builder_invariant empty_store"
  by (simp add: builder_invariant_def empty_store_def addresses_allocated_def
        referrers_complete_def referrers_sound_def)

lemma step_invariant:
  assumes "builder_invariant s" and "step x s = Inr s'"
  shows "builder_invariant s'"
proof (cases x)
  case (New_Block l)
  then show ?thesis using assms new_Block_invariant by auto
next
  case (New_Function n g)
  then show ?thesis using assms new_Function_invariant by auto
next
  case (Push_block f b)
  then show ?thesis using assms push_block_invariant by auto
next
  case (Call this c)
  then obtain a where "call this c s = Inr (a, s')"
    using assms(2) by (auto split: sum.splits)
  then show ?thesis using assms(1) call_invariant by blast
qed

lemma run_invariant:
  "builder_invariant s \<Longrightarrow> run xs s = Inr s' \<Longrightarrow> builder_invariant s'"
proof (induction xs arbitrary: s)
  case Nil
  then show ?case by simp
next
  case (Cons x xs)
  then obtain s1 where s1: "step x s = Inr s1" "run xs s1 = Inr s'"
    by (auto split: sum.splits)
  then show ?case using Cons.IH step_invariant[OF Cons.prems(1) s1(1)] by blast
qed

lemma reachable_invariant: "run xs empty_store = Inr s \<Longrightarrow> builder_invariant s"
  using run_invariant[OF empty_store_invariant] .

lemmas builder_defs =
  new_Block_def new_Function_def push_block_def call_def terminated_def terminator_at_def
  push_instr_def add_referrer_def instruction_of_def is_terminating_def empty_store_def
  Let_def

lemma sample_run_ex: "\<exists>s. run sample_program empty_store = Inr s"
  by (simp add: sample_program_def builder_defs)

lemma sample_run: "run sample_program empty_store = Inr sample_store"
  using sample_run_ex by (auto simp: sample_store_def)

lemma sample_blocks:
  "block_at sample_store 1 = Some sample_entry"
  "block_at sample_store 3 = Some sample_exit"
  by (simp_all add: sample_store_def sample_program_def builder_defs sample_entry_def
        sample_exit_def)

lemma sample_instructions:
  "instruction_at sample_store 4 = Some (ContextSetStrictInstruction False)"
  "instruction_at sample_store 5 = Some (JumpInstruction 1 3)"
  "instruction_at sample_store 6 = Some (ReturnInstruction 3 (ValueConstant VALUE_UNDEFINED))"
  by (simp_all add: sample_store_def sample_program_def builder_defs)

lemma sample_function:
  "function_at sample_store 2 =
     Some \<lparr>Function_is_global = False, Function_name = ''f'', Function_blocks = [1, 3]\<rparr>"
  by (simp add: sample_store_def sample_program_def builder_defs)

lemma remove_referrers_Inr:
  "remove_referrers a ts s = Inr s' \<Longrightarrow>
     instruction_at s' = instruction_at s
     \<and> (\<forall>x. block_at s' x =
           map_option (\<lambda>B. B\<lparr>Block_referrers :=
                               (if x \<in> set ts then Block_referrers B - {a}
                                else Block_referrers B)\<rparr>) (block_at s x))"
proof (induction ts arbitrary: s)
  case Nil
  then show ?case by (auto simp: option.map_ident)
next
  case (Cons t ts)
  from Cons.prems obtain B where B: "block_at s t = Some B"
    by (auto simp: remove_referrer_def split: option.splits)
  define s1 where "s1 = s\<lparr>block_at := (block_at s)
                    (t \<mapsto> B\<lparr>Block_referrers := Block_referrers B - {a}\<rparr>)\<rparr>"
  have "remove_referrer t a s = Inr s1"
    by (simp add: remove_referrer_def B s1_def)
  then have rest: "remove_referrers a ts s1 = Inr s'" using Cons.prems by simp
  note IH = Cons.IH[OF rest]
  have "\<forall>x. block_at s' x =
           map_option (\<lambda>B. B\<lparr>Block_referrers :=
                               (if x \<in> set (t # ts) then Block_referrers B - {a}
                                else Block_referrers B)\<rparr>) (block_at s x)"
  proof
    fix x
    show "block_at s' x =
           map_option (\<lambda>B. B\<lparr>Block_referrers :=
                               (if x \<in> set (t # ts) then Block_referrers B - {a}
                                else Block_referrers B)\<rparr>) (block_at s x)"
      using IH B by (cases "x = t") (auto simp: s1_def)
  qed
  moreover have "instruction_at s' = instruction_at s" using IH by (simp add: s1_def)
  ultimately show ?case by blast
qed

lemma unregister_sound:
  assumes rs: "referrers_sound s" and i: "instruction_at s T = Some i"
    and r: "remove_referrers T (targets i) s = Inr s'"
  shows "referrers_sound s'" and "\<And>b B. block_at s' b = Some B \<Longrightarrow> T \<notin> Block_referrers B"
proof -
  note R = remove_referrers_Inr[OF r]
  have sub: "\<And>b B'. block_at s' b = Some B' \<Longrightarrow>
     \<exists>B. block_at s b = Some B
       \<and> Block_referrers B' = (if b \<in> set (targets i) then Block_referrers B - {T}
                                else Block_referrers B)"
  proof -
    fix b B' assume "block_at s' b = Some B'"
    then show "\<exists>B. block_at s b = Some B
       \<and> Block_referrers B' = (if b \<in> set (targets i) then Block_referrers B - {T}
                                else Block_referrers B)"
      using R by (cases "block_at s b") auto
  qed
  show "referrers_sound s'"
    unfolding referrers_sound_def
  proof (intro allI impI, elim conjE)
    fix b' B' U assume h: "block_at s' b' = Some B'" and U: "U \<in> Block_referrers B'"
    from sub[OF h] obtain B where B: "block_at s b' = Some B" "U \<in> Block_referrers B"
      using U by (auto split: if_splits)
    then show "\<exists>j. instruction_at s' U = Some j \<and> b' \<in> set (targets j)"
      using rs R unfolding referrers_sound_def by metis
  qed
  fix b B' assume h: "block_at s' b = Some B'"
  show "T \<notin> Block_referrers B'"
  proof
    assume T: "T \<in> Block_referrers B'"
    from sub[OF h] obtain B where B: "block_at s b = Some B"
      and eq: "Block_referrers B' = (if b \<in> set (targets i) then Block_referrers B - {T}
                                else Block_referrers B)" by blast
    have "T \<in> Block_referrers B" using T eq by (auto split: if_splits)
    then have "b \<in> set (targets i)"
      using rs B i unfolding referrers_sound_def by fastforce
    then show False using T eq by simp
  qed
qed

lemma sample_unregister:
  "remove_referrers 5 (targets (JumpInstruction 1 3)) sample_store = Inr sample_unregistered"
  by (simp add: sample_unregistered_def remove_referrer_def sample_blocks)

section \<open>Claims about blocks, functions and the builder\<close>

text \<open>
  The position of terminators. In every block built through the builder no terminator
  precedes another instruction of the block, so a block that has been terminated ends
  with its only terminator; every factory call, of a terminator or not, on a block whose
  last instruction is a terminator is a programming error.
\<close>

lemma builder_keeps_terminators_last:
  assumes "run ops empty_store = Inr s" and "block_at s b = Some B"
  shows "terminators_last s B
    \<and> (terminated s B \<longrightarrow> (\<forall>c. call b c s = Inl ProgrammingError))"
proof -
  have "builder_invariant s" using assms(1) by (rule reachable_invariant)
  then have "terminators_last s B"
    using assms(2) unfolding builder_invariant_def by blast
  moreover have "terminated s B \<longrightarrow> (\<forall>c. call b c s = Inl ProgrammingError)"
    using assms(2) by (simp add: call_def)
  ultimately show ?thesis by blast
qed

text \<open>
  The entry block of the sample program: it is terminated by its jump, and a further call
  of \<open>push_ctx_leave\<close> or of \<open>push_trm_ret\<close> on it is a programming error.
\<close>

lemma sample_entry_terminated:
  "run sample_program empty_store = Inr sample_store
   \<and> block_at sample_store 1 = Some sample_entry
   \<and> terminators_last sample_store sample_entry
   \<and> terminated sample_store sample_entry
   \<and> call 1 (push_ctx_leave) sample_store = Inl ProgrammingError
   \<and> call 1 (push_trm_ret (ValueConstant VALUE_UNDEFINED)) sample_store
       = Inl ProgrammingError"
proof -
  have t: "terminated sample_store sample_entry"
    by (simp add: terminated_def terminator_at_def sample_instructions sample_entry_def
          is_terminating_def)
  show ?thesis
    using builder_keeps_terminators_last[OF sample_run sample_blocks(1)] t sample_run
      sample_blocks(1)
    by simp
qed

text \<open>
  Whether a block gets terminated is left to the caller of the builder, the lowering: the
  builder accepts a block that is neither empty nor terminated.
\<close>

lemma builder_accepts_unterminated_block:
  "\<exists>s B. run [New_Block ''b'', Call 1 push_ctx_leave] empty_store = Inr s
     \<and> block_at s 1 = Some B \<and> Block_instructions B = [2] \<and> \<not> terminated s B"
  by (simp add: builder_defs)

text \<open>
  C2: referrer closure. In every store the builder produces, a terminator in a block is
  in the referrer set of each block it refers to, and each member of a referrer set has
  the block among its targets. The factories register through \<open>add_referrer\<close>;
  un-registering a terminator from its targets through \<open>remove_referrer\<close>, as its
  replacement requires, leaves it in no referrer set and keeps the second half.
\<close>

theorem builder_referrer_closure:
  assumes "run ops empty_store = Inr s"
  shows "referrers_complete s \<and> referrers_sound s
    \<and> (\<forall>T i s'. instruction_at s T = Some i \<and> remove_referrers T (targets i) s = Inr s'
          \<longrightarrow> referrers_sound s' \<and> (\<forall>b B. block_at s' b = Some B \<longrightarrow> T \<notin> Block_referrers B))"
proof -
  have inv: "builder_invariant s" using assms by (rule reachable_invariant)
  then have c: "referrers_complete s" and rs: "referrers_sound s"
    unfolding builder_invariant_def by auto
  show ?thesis using c rs unregister_sound[OF rs] by blast
qed

text \<open>
  In the sample store the jump at address 5, in the entry block, refers to the block at
  address 3, whose referrer set is \<open>{5}\<close>.
\<close>

theorem builder_referrer_closure_witness:
  "run sample_program empty_store = Inr sample_store
   \<and> referrers_complete sample_store \<and> referrers_sound sample_store
   \<and> block_at sample_store 1 = Some sample_entry
   \<and> 5 \<in> set (Block_instructions sample_entry)
   \<and> instruction_at sample_store 5 = Some (JumpInstruction 1 3)
   \<and> is_terminating (JumpInstruction 1 3)
   \<and> 3 \<in> set (targets (JumpInstruction 1 3))
   \<and> block_at sample_store 3 = Some sample_exit
   \<and> 5 \<in> Block_referrers sample_exit
   \<and> remove_referrers 5 (targets (JumpInstruction 1 3)) sample_store
       = Inr sample_unregistered
   \<and> referrers_sound sample_unregistered
   \<and> block_at sample_unregistered 3
       = Some \<lparr>Block_label = ''exit'', Block_instructions = [6], Block_referrers = {}\<rparr>"
proof -
  note closure = builder_referrer_closure[OF sample_run]
  have u: "referrers_sound sample_unregistered
     \<and> (\<forall>b B. block_at sample_unregistered b = Some B \<longrightarrow> 5 \<notin> Block_referrers B)"
    using closure sample_instructions(2) sample_unregister by blast
  have m: "5 \<in> set (Block_instructions sample_entry)"
    "is_terminating (JumpInstruction 1 3)"
    "3 \<in> set (targets (JumpInstruction 1 3))"
    "5 \<in> Block_referrers sample_exit"
    by (simp_all add: sample_entry_def sample_exit_def is_terminating_def)
  have e: "block_at sample_unregistered 3
       = Some \<lparr>Block_label = ''exit'', Block_instructions = [6], Block_referrers = {}\<rparr>"
    by (simp add: sample_unregistered_def remove_referrer_def sample_blocks sample_exit_def)
  show ?thesis
    using closure u m e sample_run sample_blocks sample_instructions(2) sample_unregister
    by blast
qed

text \<open>
  C6: a function contains at least one block from its construction on, the entry block,
  and every operation of the builder preserves this, so \<open>last_block()\<close> is never
  null. The last conjunct is the construction: the new function has exactly one block.
\<close>

theorem function_has_a_block:
  assumes "run ops empty_store = Inr s" and "function_at s f = Some F"
  shows "Function_blocks F \<noteq> []
    \<and> last_block F = Some (last (Function_blocks F))
    \<and> (\<exists>F0. function_at (snd (new_Function n g s0)) (fst (new_Function n g s0)) = Some F0
             \<and> length (Function_blocks F0) = 1)"
proof -
  have "builder_invariant s" using assms(1) by (rule reachable_invariant)
  then have "Function_blocks F \<noteq> []"
    using assms(2) unfolding builder_invariant_def by blast
  then show ?thesis
    by (simp add: last_block_def new_Function_def new_Block_def Let_def)
qed

text \<open>The function of the sample program has the blocks 1 and 3; its last block is 3.\<close>

theorem function_has_a_block_witness:
  "run sample_program empty_store = Inr sample_store
   \<and> function_at sample_store 2 =
       Some \<lparr>Function_is_global = False, Function_name = ''f'', Function_blocks = [1, 3]\<rparr>
   \<and> last_block \<lparr>Function_is_global = False, Function_name = ''f'', Function_blocks = [1, 3]\<rparr>
       = Some 3"
  using function_has_a_block[OF sample_run sample_function] sample_run sample_function
  by simp

end
